theory Spec2Isabelle
  imports Main "HOL-Library.Word"
begin

section \<open>EnergyGridControl: the contract's storage and calls\<close>

text \<open>
  A shallow embedding of \<^verbatim>\<open>src/contracts/src/EnergyGridControl.sol\<close> (Solidity 0.8.19).
  \<^item> \<^verbatim>\<open>uint256\<close> is \<open>256 word\<close>, \<^verbatim>\<open>address\<close> is \<open>160 word\<close>. Arithmetic in
    Solidity 0.8 is checked: an overflow, an underflow or a division by zero aborts the
    call with a panic, so \<open>+\<close>, \<open>-\<close>, \<open>*\<close> of the source are \<open>checked_add\<close>,
    \<open>checked_sub\<close>, \<open>checked_mul\<close> here, each with its failure branch.
  \<^item> A \<^verbatim>\<open>mapping\<close> is a total function: a key never written reads as the zero value.
  \<^item> A call runs in an environment (\<^verbatim>\<open>msg.sender\<close>, \<^verbatim>\<open>block.timestamp\<close>) and ends in
    an \<open>outcome\<close>: \<open>Success\<close> with the returned data and the storage written, or
    \<open>Failure\<close> with the error and the storage as it stood when the call aborted.
    \<open>transact\<close> is the transaction around a call: a failed call is rolled back.
  \<^item> Events are appended to the field \<open>events_log\<close>, so that a rolled back call leaves
    no event either. \<^verbatim>\<open>_executeCommand\<close> emits \<^verbatim>\<open>PhotonicSignalEmitted\<close>, which the
    contract does not declare among its events; it is an event here as it is emitted
    there. \<^verbatim>\<open>VotingPowerUpdated\<close> is declared and never emitted.
  \<^item> \<^verbatim>\<open>console.log\<close> writes nothing and is left out. \<^verbatim>\<open>nonReentrant\<close> comes from the
    imported ReentrancyGuard; the contract calls no other contract, so the guard never
    fires and is left out. \<^verbatim>\<open>onlyOwner\<close> and \<^verbatim>\<open>owner()\<close> come from the imported Ownable:
    the owner is the deployer, and \<^verbatim>\<open>onlyOwner\<close> rejects every other sender. The
    calls are the functions this contract declares; the functions it inherits from
    Ownable (transfer of ownership) are not in the source files and are not calls here.
\<close>

type_synonym uint256 = "256 word"
type_synonym address = "160 word"
type_synonym bytes = "8 word list"

record GridCommand =
  command :: string
  region :: string
  photonicData :: bytes
  proposer :: address
  timestamp :: uint256
  executionTime :: uint256
  executed :: bool
  votesFor :: uint256
  votesAgainst :: uint256

record EnergyNode =
  nodeAddress :: address
  location :: string
  capacity :: uint256
  isActive :: bool
  lastHeartbeat :: uint256
  votingPower :: uint256
  totalVotesCast :: uint256

datatype event =
    CommandProposed uint256 string string address
  | CommandVoted uint256 address uint256 bool
  | CommandExecuted uint256 bytes uint256 uint256
  | NodeRegistered address string uint256 uint256
  | NodeDeactivated address
  | VotingPowerUpdated address uint256
  | PhotonicSignalEmitted uint256 bytes

record contract =
  commands :: "uint256 \<Rightarrow> GridCommand"
  energyNodes :: "address \<Rightarrow> EnergyNode"
  hasVoted :: "uint256 \<Rightarrow> address \<Rightarrow> bool"
  authorizedProposers :: "address \<Rightarrow> bool"
  commandCount :: uint256
  totalActiveCapacity :: uint256
  owner :: address
  events_log :: "event list"

record env =
  msg_sender :: address
  block_timestamp :: uint256

datatype error = Revert string | Panic

datatype retval =
    RVoid
  | RUint uint256
  | RStatus string string uint256 uint256 uint256 uint256 bool bool

datatype outcome = Success retval contract | Failure error contract

subsection \<open>Constants\<close>

definition VOTING_PERIOD :: uint256 where
  "VOTING_PERIOD = 604800"

definition EXECUTION_DELAY :: uint256 where
  "EXECUTION_DELAY = 3600"

definition MIN_APPROVAL_PERCENTAGE :: uint256 where
  "MIN_APPROVAL_PERCENTAGE = 60"

definition MIN_PARTICIPATION_PERCENTAGE :: uint256 where
  "MIN_PARTICIPATION_PERCENTAGE = 30"

definition THIRTY_DAYS :: uint256 where
  "THIRTY_DAYS = 2592000"

subsection \<open>Checked arithmetic of Solidity 0.8\<close>

definition checked_add :: "uint256 \<Rightarrow> uint256 \<Rightarrow> uint256 option" where
  "checked_add a b = (if unat a + unat b < 2 ^ 256 then Some (a + b) else None)"

definition checked_sub :: "uint256 \<Rightarrow> uint256 \<Rightarrow> uint256 option" where
  "checked_sub a b = (if unat b \<le> unat a then Some (a - b) else None)"

definition checked_mul :: "uint256 \<Rightarrow> uint256 \<Rightarrow> uint256 option" where
  "checked_mul a b = (if unat a * unat b < 2 ^ 256 then Some (a * b) else None)"

definition checked_div :: "uint256 \<Rightarrow> uint256 \<Rightarrow> uint256 option" where
  "checked_div a b = (if b = 0 then None else Some (a div b))"

subsection \<open>Zero values and the constructor\<close>

definition zero_command :: GridCommand where
  "zero_command = \<lparr>command = [], region = [], photonicData = [], proposer = 0,
     timestamp = 0, executionTime = 0, executed = False, votesFor = 0, votesAgainst = 0\<rparr>"

definition zero_node :: EnergyNode where
  "zero_node = \<lparr>nodeAddress = 0, location = [], capacity = 0, isActive = False,
     lastHeartbeat = 0, votingPower = 0, totalVotesCast = 0\<rparr>"

text \<open>Ownable's constructor makes the deployer the owner; the contract's own constructor
  then sets \<^verbatim>\<open>authorizedProposers[owner()] = true\<close>.\<close>

definition constructor :: "address \<Rightarrow> contract" where
  "constructor deployer =
     \<lparr>commands = (\<lambda>_. zero_command),
      energyNodes = (\<lambda>_. zero_node),
      hasVoted = (\<lambda>_ _. False),
      authorizedProposers = (\<lambda>a. a = deployer),
      commandCount = 0,
      totalActiveCapacity = 0,
      owner = deployer,
      events_log = []\<rparr>"

subsection \<open>Storage writes and events\<close>

definition emit :: "event \<Rightarrow> contract \<Rightarrow> contract" where
  "emit ev s = s\<lparr>events_log := events_log s @ [ev]\<rparr>"

definition upd_command :: "uint256 \<Rightarrow> (GridCommand \<Rightarrow> GridCommand) \<Rightarrow> contract \<Rightarrow> contract" where
  "upd_command i f s = s\<lparr>commands := (commands s)(i := f (commands s i))\<rparr>"

definition upd_node :: "address \<Rightarrow> (EnergyNode \<Rightarrow> EnergyNode) \<Rightarrow> contract \<Rightarrow> contract" where
  "upd_node a f s = s\<lparr>energyNodes := (energyNodes s)(a := f (energyNodes s a))\<rparr>"

subsection \<open>Sequencing\<close>

text \<open>\<open>require b msg s k\<close> is the statement \<^verbatim>\<open>require(b, msg)\<close> run on storage \<open>s\<close>
  and followed by \<open>k\<close>; \<open>guard\<close> runs a modifier's checks before the rest; \<open>checked\<close>
  continues with the result of a checked operation, or aborts with a panic.\<close>

definition require :: "bool \<Rightarrow> string \<Rightarrow> contract \<Rightarrow> outcome \<Rightarrow> outcome" where
  "require b msg s k = (if b then k else Failure (Revert msg) s)"

definition guard :: "error option \<Rightarrow> contract \<Rightarrow> outcome \<Rightarrow> outcome" where
  "guard m s k = (case m of Some err \<Rightarrow> Failure err s | None \<Rightarrow> k)"

definition checked :: "uint256 option \<Rightarrow> contract \<Rightarrow> (uint256 \<Rightarrow> outcome) \<Rightarrow> outcome" where
  "checked r s k = (case r of None \<Rightarrow> Failure Panic s | Some v \<Rightarrow> k v)"

subsection \<open>Modifiers\<close>

text \<open>A modifier's checks either pass (\<open>None\<close>) or abort the call with an error.\<close>

definition onlyOwner :: "env \<Rightarrow> contract \<Rightarrow> error option" where
  "onlyOwner e s =
     (if owner s = msg_sender e then None
      else Some (Revert ''Ownable: caller is not the owner''))"

definition onlyActiveNode :: "env \<Rightarrow> contract \<Rightarrow> error option" where
  "onlyActiveNode e s =
     (if isActive (energyNodes s (msg_sender e)) then None
      else Some (Revert ''Node not active or registered''))"

definition commandExists :: "uint256 \<Rightarrow> contract \<Rightarrow> error option" where
  "commandExists cid s =
     (if 0 < cid \<and> cid \<le> commandCount s then None
      else Some (Revert ''Command does not exist''))"

definition votingOpen :: "env \<Rightarrow> uint256 \<Rightarrow> contract \<Rightarrow> error option" where
  "votingOpen e cid s =
     (let cmd = commands s cid in
      case checked_add (timestamp cmd) VOTING_PERIOD of
        None \<Rightarrow> Some Panic
      | Some closes \<Rightarrow>
          (if \<not> block_timestamp e \<le> closes then Some (Revert ''Voting period ended'')
           else if executed cmd then Some (Revert ''Command already executed'')
           else None))"

subsection \<open>Proposals, votes and execution\<close>

definition proposeCommand :: "env \<Rightarrow> string \<Rightarrow> string \<Rightarrow> bytes \<Rightarrow> contract \<Rightarrow> outcome" where
  "proposeCommand e cmdText reg pdata s =
     guard (onlyOwner e s) s (
     require (0 < length cmdText) ''Command cannot be empty'' s (
     require (0 < length reg) ''Region cannot be empty'' s (
     require (0 < length pdata) ''Photonic data required'' s (
     checked (checked_add (commandCount s) 1) s (\<lambda>n.
     let s1 = s\<lparr>commandCount := n\<rparr>;
         s2 = upd_command (commandCount s1) (\<lambda>c. c\<lparr>command := cmdText, region := reg,
                photonicData := pdata, proposer := msg_sender e,
                timestamp := block_timestamp e\<rparr>) s1
     in
     checked (checked_add (block_timestamp e) VOTING_PERIOD) s2 (\<lambda>t1.
     checked (checked_add t1 EXECUTION_DELAY) s2 (\<lambda>t2.
     let s3 = upd_command (commandCount s2) (\<lambda>c. c\<lparr>executionTime := t2\<rparr>) s2
     in Success RVoid
          (emit (CommandProposed (commandCount s3) cmdText reg (msg_sender e)) s3))))))))"

text \<open>\<^verbatim>\<open>_executeCommand\<close> of the source (an identifier cannot start with an underscore
  here).\<close>

definition executeCommand_internal :: "uint256 \<Rightarrow> contract \<Rightarrow> outcome" where
  "executeCommand_internal cid s =
     require (\<not> executed (commands s cid)) ''Command already executed'' s (
     let s1 = upd_command cid (\<lambda>c. c\<lparr>executed := True\<rparr>) s;
         cmd = commands s1 cid;
         s2 = emit (PhotonicSignalEmitted cid (photonicData cmd)) s1;
         s3 = emit (CommandExecuted cid (photonicData cmd) (votesFor cmd) (votesAgainst cmd)) s2
     in Success RVoid s3)"

text \<open>\<^verbatim>\<open>_checkAndExecuteCommand\<close> of the source.\<close>

definition checkAndExecuteCommand :: "uint256 \<Rightarrow> contract \<Rightarrow> outcome" where
  "checkAndExecuteCommand cid s =
     (let cmd = commands s cid in
      checked (checked_add (votesFor cmd) (votesAgainst cmd)) s (\<lambda>totalVotes.
      checked (checked_mul (totalActiveCapacity s) MIN_PARTICIPATION_PERCENTAGE) s (\<lambda>scaled.
      if totalVotes < scaled div 100 then Success RVoid s
      else if 0 < totalVotes then
        checked (checked_mul (votesFor cmd) 100) s (\<lambda>forScaled.
        checked (checked_div forScaled totalVotes) s (\<lambda>approvalPercentage.
        if MIN_APPROVAL_PERCENTAGE \<le> approvalPercentage
        then executeCommand_internal cid s
        else Success RVoid s))
      else Success RVoid s)))"

definition voteOnCommand :: "env \<Rightarrow> uint256 \<Rightarrow> bool \<Rightarrow> contract \<Rightarrow> outcome" where
  "voteOnCommand e cid support s =
     guard (onlyActiveNode e s) s (
     guard (commandExists cid s) s (
     guard (votingOpen e cid s) s (
     require (\<not> hasVoted s cid (msg_sender e)) ''Already voted'' s (
     let s1 = s\<lparr>hasVoted := (hasVoted s)(cid := (hasVoted s cid)(msg_sender e := True))\<rparr>
     in
     checked (checked_add (totalVotesCast (energyNodes s1 (msg_sender e))) 1) s1 (\<lambda>cnt.
     let s2 = upd_node (msg_sender e) (\<lambda>n. n\<lparr>totalVotesCast := cnt\<rparr>) s1;
         votingWeight = votingPower (energyNodes s2 (msg_sender e))
     in
     checked (if support
              then checked_add (votesFor (commands s2 cid)) votingWeight
              else checked_add (votesAgainst (commands s2 cid)) votingWeight) s2 (\<lambda>tally.
     let s3 = (if support
               then upd_command cid (\<lambda>c. c\<lparr>votesFor := tally\<rparr>) s2
               else upd_command cid (\<lambda>c. c\<lparr>votesAgainst := tally\<rparr>) s2);
         s4 = emit (CommandVoted cid (msg_sender e) votingWeight support) s3
     in checkAndExecuteCommand cid s4))))))"

definition executeCommand :: "env \<Rightarrow> uint256 \<Rightarrow> contract \<Rightarrow> outcome" where
  "executeCommand e cid s =
     guard (commandExists cid s) s (
     let cmd = commands s cid in
     require (\<not> executed cmd) ''Command already executed'' s (
     checked (checked_add (timestamp cmd) VOTING_PERIOD) s (\<lambda>closes.
     require (closes \<le> block_timestamp e) ''Voting period not ended'' s (
     checked (checked_add (votesFor cmd) (votesAgainst cmd)) s (\<lambda>totalVotes.
     require (0 < totalVotes) ''No votes cast'' s (
     checked (checked_mul (totalActiveCapacity s) MIN_PARTICIPATION_PERCENTAGE) s (\<lambda>scaled.
     require (scaled div 100 \<le> totalVotes) ''Quorum not reached'' s (
     checked (checked_mul (votesFor cmd) 100) s (\<lambda>forScaled.
     checked (checked_div forScaled totalVotes) s (\<lambda>approvalPercentage.
     require (MIN_APPROVAL_PERCENTAGE \<le> approvalPercentage) ''Command not approved'' s (
     executeCommand_internal cid s)))))))))))"

subsection \<open>The node registry\<close>

definition registerEnergyNode :: "env \<Rightarrow> string \<Rightarrow> uint256 \<Rightarrow> contract \<Rightarrow> outcome" where
  "registerEnergyNode e loc cap s =
     require (\<not> isActive (energyNodes s (msg_sender e))) ''Node already registered'' s (
     require (0 < cap) ''Capacity must be greater than 0'' s (
     let power = cap;
         s1 = s\<lparr>energyNodes := (energyNodes s)(msg_sender e :=
                \<lparr>nodeAddress = msg_sender e, location = loc, capacity = cap,
                 isActive = True, lastHeartbeat = block_timestamp e,
                 votingPower = power, totalVotesCast = 0\<rparr>)\<rparr>
     in
     checked (checked_add (totalActiveCapacity s1) cap) s1 (\<lambda>newTotal.
     let s2 = s1\<lparr>totalActiveCapacity := newTotal\<rparr>
     in Success RVoid (emit (NodeRegistered (msg_sender e) loc cap power) s2))))"

definition heartbeat :: "env \<Rightarrow> contract \<Rightarrow> outcome" where
  "heartbeat e s =
     guard (onlyActiveNode e s) s (
     Success RVoid (upd_node (msg_sender e) (\<lambda>n. n\<lparr>lastHeartbeat := block_timestamp e\<rparr>) s))"

definition deactivateNode :: "env \<Rightarrow> address \<Rightarrow> contract \<Rightarrow> outcome" where
  "deactivateNode e a s =
     guard (onlyOwner e s) s (
     require (isActive (energyNodes s a)) ''Node not active'' s (
     let cap = capacity (energyNodes s a);
         s1 = upd_node a (\<lambda>n. n\<lparr>isActive := False\<rparr>) s
     in
     checked (checked_sub (totalActiveCapacity s1) cap) s1 (\<lambda>newTotal.
     let s2 = s1\<lparr>totalActiveCapacity := newTotal\<rparr>
     in Success RVoid (emit (NodeDeactivated a) s2))))"

definition checkNodeHealth :: "env \<Rightarrow> address \<Rightarrow> contract \<Rightarrow> outcome" where
  "checkNodeHealth e a s =
     (let node = energyNodes s a in
      require (isActive node) ''Node not active'' s (
      checked (checked_add (lastHeartbeat node) THIRTY_DAYS) s (\<lambda>deadline.
      if deadline < block_timestamp e then
        checked (checked_sub (totalActiveCapacity s) (capacity node)) s (\<lambda>newTotal.
        let s1 = s\<lparr>totalActiveCapacity := newTotal\<rparr>;
            s2 = upd_node a (\<lambda>n. n\<lparr>isActive := False\<rparr>) s1
        in Success RVoid (emit (NodeDeactivated a) s2))
      else Success RVoid s)))"

subsection \<open>Views\<close>

definition getVotingPower :: "address \<Rightarrow> contract \<Rightarrow> outcome" where
  "getVotingPower a s =
     (if \<not> isActive (energyNodes s a) then Success (RUint 0) s
      else Success (RUint (votingPower (energyNodes s a))) s)"

definition getCommandStatus :: "uint256 \<Rightarrow> contract \<Rightarrow> outcome" where
  "getCommandStatus cid s =
     guard (commandExists cid s) s (
     let cmd = commands s cid in
     checked (checked_add (votesFor cmd) (votesAgainst cmd)) s (\<lambda>totalVotes.
     checked (if 0 < totalVotes
              then (case checked_mul (votesFor cmd) 100 of
                      None \<Rightarrow> None
                    | Some forScaled \<Rightarrow> checked_div forScaled totalVotes)
              else Some 0) s (\<lambda>approvalPct.
     checked (checked_mul (totalActiveCapacity s) MIN_PARTICIPATION_PERCENTAGE) s (\<lambda>scaled.
     let meetsQuorum = (scaled div 100 \<le> totalVotes);
         meetsApproval = (0 < totalVotes \<and> MIN_APPROVAL_PERCENTAGE \<le> approvalPct)
     in Success (RStatus (command cmd) (region cmd) (votesFor cmd) (votesAgainst cmd)
                   totalVotes approvalPct
                   (meetsQuorum \<and> meetsApproval \<and> \<not> executed cmd) (executed cmd)) s))))"

definition getTotalGridCapacity :: "contract \<Rightarrow> outcome" where
  "getTotalGridCapacity s = Success (RUint (totalActiveCapacity s)) s"

definition emergencyShutdown :: "env \<Rightarrow> contract \<Rightarrow> outcome" where
  "emergencyShutdown e s = guard (onlyOwner e s) s (Success RVoid s)"

subsection \<open>Calls and transactions\<close>

datatype call =
    ProposeCommand string string bytes
  | VoteOnCommand uint256 bool
  | ExecuteCommand uint256
  | RegisterEnergyNode string uint256
  | Heartbeat
  | DeactivateNode address
  | CheckNodeHealth address
  | GetVotingPower address
  | GetCommandStatus uint256
  | GetTotalGridCapacity
  | EmergencyShutdown

fun dispatch :: "env \<Rightarrow> call \<Rightarrow> contract \<Rightarrow> outcome" where
  "dispatch e (ProposeCommand c r p) s = proposeCommand e c r p s"
| "dispatch e (VoteOnCommand cid support) s = voteOnCommand e cid support s"
| "dispatch e (ExecuteCommand cid) s = executeCommand e cid s"
| "dispatch e (RegisterEnergyNode loc cap) s = registerEnergyNode e loc cap s"
| "dispatch e Heartbeat s = heartbeat e s"
| "dispatch e (DeactivateNode a) s = deactivateNode e a s"
| "dispatch e (CheckNodeHealth a) s = checkNodeHealth e a s"
| "dispatch e (GetVotingPower a) s = getVotingPower a s"
| "dispatch e (GetCommandStatus cid) s = getCommandStatus cid s"
| "dispatch e GetTotalGridCapacity s = getTotalGridCapacity s"
| "dispatch e EmergencyShutdown s = emergencyShutdown e s"

text \<open>The transaction around a call: the storage a successful call wrote is kept, a
  failed call is rolled back to the storage before it.\<close>

definition transact :: "contract \<Rightarrow> env \<times> call \<Rightarrow> contract" where
  "transact s tx =
     (case dispatch (fst tx) (snd tx) s of
        Success _ s' \<Rightarrow> s'
      | Failure _ _ \<Rightarrow> s)"

definition run :: "contract \<Rightarrow> (env \<times> call) list \<Rightarrow> contract" where
  "run s txs = foldl transact s txs"

fun returned :: "outcome \<Rightarrow> retval option" where
  "returned (Success r _) = Some r"
| "returned (Failure _ _) = None"

fun failed_with :: "outcome \<Rightarrow> error option" where
  "failed_with (Success _ _) = None"
| "failed_with (Failure err _) = Some err"

fun storage_of :: "outcome \<Rightarrow> contract" where
  "storage_of (Success _ s) = s"
| "storage_of (Failure _ s) = s"

section \<open>What a successful call writes\<close>

text \<open>The storage after each successful call, written as one update of the storage
  before it. The lemmas \<open>*_effect\<close> below prove that the calls of the source write
  exactly these.\<close>

definition registered :: "env \<Rightarrow> string \<Rightarrow> uint256 \<Rightarrow> contract \<Rightarrow> contract" where
  "registered e loc cap s =
     s\<lparr>energyNodes := (energyNodes s)(msg_sender e :=
          \<lparr>nodeAddress = msg_sender e, location = loc, capacity = cap,
           isActive = True, lastHeartbeat = block_timestamp e,
           votingPower = cap, totalVotesCast = 0\<rparr>),
       totalActiveCapacity := totalActiveCapacity s + cap,
       events_log := events_log s @ [NodeRegistered (msg_sender e) loc cap cap]\<rparr>"

definition deactivated :: "address \<Rightarrow> contract \<Rightarrow> contract" where
  "deactivated a s =
     s\<lparr>energyNodes := (energyNodes s)(a := (energyNodes s a)\<lparr>isActive := False\<rparr>),
       totalActiveCapacity := totalActiveCapacity s - capacity (energyNodes s a),
       events_log := events_log s @ [NodeDeactivated a]\<rparr>"

definition beat :: "env \<Rightarrow> contract \<Rightarrow> contract" where
  "beat e s =
     s\<lparr>energyNodes := (energyNodes s)(msg_sender e :=
          (energyNodes s (msg_sender e))\<lparr>lastHeartbeat := block_timestamp e\<rparr>)\<rparr>"

definition proposed :: "env \<Rightarrow> string \<Rightarrow> string \<Rightarrow> bytes \<Rightarrow> contract \<Rightarrow> contract" where
  "proposed e cmdText reg pdata s =
     (let n = commandCount s + 1
      in s\<lparr>commands := (commands s)(n := (commands s n)
              \<lparr>command := cmdText, region := reg, photonicData := pdata,
               proposer := msg_sender e, timestamp := block_timestamp e,
               executionTime := block_timestamp e + VOTING_PERIOD + EXECUTION_DELAY\<rparr>),
            commandCount := n,
            events_log := events_log s @ [CommandProposed n cmdText reg (msg_sender e)]\<rparr>)"

definition tallied :: "env \<Rightarrow> uint256 \<Rightarrow> bool \<Rightarrow> contract \<Rightarrow> contract" where
  "tallied e cid support s =
     (let a = msg_sender e; node = energyNodes s a; cmd = commands s cid; w = votingPower node
      in s\<lparr>hasVoted := (hasVoted s)(cid := (hasVoted s cid)(a := True)),
            energyNodes := (energyNodes s)(a := node\<lparr>totalVotesCast := totalVotesCast node + 1\<rparr>),
            commands := (commands s)(cid :=
               (if support then cmd\<lparr>votesFor := votesFor cmd + w\<rparr>
                else cmd\<lparr>votesAgainst := votesAgainst cmd + w\<rparr>)),
            events_log := events_log s @ [CommandVoted cid a w support]\<rparr>)"

definition marked_executed :: "uint256 \<Rightarrow> contract \<Rightarrow> contract" where
  "marked_executed cid s =
     (let cmd = commands s cid
      in s\<lparr>commands := (commands s)(cid := cmd\<lparr>executed := True\<rparr>),
            events_log := events_log s @
              [PhotonicSignalEmitted cid (photonicData cmd),
               CommandExecuted cid (photonicData cmd) (votesFor cmd) (votesAgainst cmd)]\<rparr>)"

text \<open>The quorum and approval tests of \<^verbatim>\<open>_checkAndExecuteCommand\<close>, on natural numbers:
  \<open>div\<close> on \<open>nat\<close> truncates, as the unsigned division of the source does.\<close>

definition quorum_met :: "uint256 \<Rightarrow> contract \<Rightarrow> bool" where
  "quorum_met cid s =
     (unat (totalActiveCapacity s) * 30 div 100
        \<le> unat (votesFor (commands s cid)) + unat (votesAgainst (commands s cid)))"

definition approval_met :: "uint256 \<Rightarrow> contract \<Rightarrow> bool" where
  "approval_met cid s =
     (0 < unat (votesFor (commands s cid)) + unat (votesAgainst (commands s cid)) \<and>
      60 \<le> unat (votesFor (commands s cid)) * 100
             div (unat (votesFor (commands s cid)) + unat (votesAgainst (commands s cid))))"

section \<open>Invariants\<close>

text \<open>The sum of \<open>capacity\<close> over the nodes whose \<open>isActive\<close> flag is set, and the
  invariant that \<open>totalActiveCapacity\<close> holds this sum.\<close>

definition active_capacity :: "contract \<Rightarrow> nat" where
  "active_capacity s =
     (\<Sum>a\<in>{a. isActive (energyNodes s a)}. unat (capacity (energyNodes s a)))"

definition capacity_consistent :: "contract \<Rightarrow> bool" where
  "capacity_consistent s = (unat (totalActiveCapacity s) = active_capacity s)"

text \<open>Counting in the event log: the \<open>CommandVoted\<close> events of a voter on a proposal,
  the weight the \<open>CommandVoted\<close> events of a proposal carry on one side, and the
  \<open>CommandExecuted\<close> and \<open>PhotonicSignalEmitted\<close> events of a proposal.\<close>

fun vote_count :: "uint256 \<Rightarrow> address \<Rightarrow> event \<Rightarrow> nat" where
  "vote_count p a (CommandVoted p' a' w support) = (if p' = p \<and> a' = a then 1 else 0)"
| "vote_count p a _ = 0"

definition votes_logged :: "uint256 \<Rightarrow> address \<Rightarrow> event list \<Rightarrow> nat" where
  "votes_logged p a evs = sum_list (map (vote_count p a) evs)"

fun vote_weight :: "uint256 \<Rightarrow> bool \<Rightarrow> event \<Rightarrow> nat" where
  "vote_weight p side (CommandVoted p' a' w support) =
     (if p' = p \<and> support = side then unat w else 0)"
| "vote_weight p side _ = 0"

definition weight_logged :: "uint256 \<Rightarrow> bool \<Rightarrow> event list \<Rightarrow> nat" where
  "weight_logged p side evs = sum_list (map (vote_weight p side) evs)"

fun execution_count :: "uint256 \<Rightarrow> event \<Rightarrow> nat" where
  "execution_count p (CommandExecuted p' pd vf va) = (if p' = p then 1 else 0)"
| "execution_count p _ = 0"

definition executions_logged :: "uint256 \<Rightarrow> event list \<Rightarrow> nat" where
  "executions_logged p evs = sum_list (map (execution_count p) evs)"

fun signal_count :: "uint256 \<Rightarrow> event \<Rightarrow> nat" where
  "signal_count p (PhotonicSignalEmitted p' pd) = (if p' = p then 1 else 0)"
| "signal_count p _ = 0"

definition signals_logged :: "uint256 \<Rightarrow> event list \<Rightarrow> nat" where
  "signals_logged p evs = sum_list (map (signal_count p) evs)"

text \<open>The log agrees with the storage: a voter has one logged vote on a proposal when
  \<open>hasVoted\<close> is set and none otherwise; the tallies are the logged weights; a proposal
  has one logged execution when \<open>executed\<close> is set and none otherwise.\<close>

definition votes_recorded :: "contract \<Rightarrow> bool" where
  "votes_recorded s =
     (\<forall>p a. votes_logged p a (events_log s) = (if hasVoted s p a then 1 else 0))"

definition tallies_recorded :: "contract \<Rightarrow> bool" where
  "tallies_recorded s =
     (\<forall>p. unat (votesFor (commands s p)) = weight_logged p True (events_log s) \<and>
          unat (votesAgainst (commands s p)) = weight_logged p False (events_log s))"

definition executions_recorded :: "contract \<Rightarrow> bool" where
  "executions_recorded s =
     (\<forall>p. executions_logged p (events_log s) = (if executed (commands s p) then 1 else 0) \<and>
          signals_logged p (events_log s) = (if executed (commands s p) then 1 else 0))"

text \<open>The error of a vote whose sender has already voted on the proposal: the error of
  the first check of \<^verbatim>\<open>voteOnCommand\<close> that does not pass, in the order the source runs
  them (\<^verbatim>\<open>onlyActiveNode\<close>, \<^verbatim>\<open>commandExists\<close>, \<^verbatim>\<open>votingOpen\<close> with its checked addition
  and its two requirements, then the vote record).\<close>

definition repeated_vote_error :: "env \<Rightarrow> uint256 \<Rightarrow> contract \<Rightarrow> error" where
  "repeated_vote_error e p s =
     (if \<not> isActive (energyNodes s (msg_sender e)) then Revert ''Node not active or registered''
      else if \<not> (0 < p \<and> p \<le> commandCount s) then Revert ''Command does not exist''
      else if \<not> unat (timestamp (commands s p)) + 604800 < 2 ^ 256 then Panic
      else if unat (timestamp (commands s p)) + 604800 < unat (block_timestamp e)
        then Revert ''Voting period ended''
      else if executed (commands s p) then Revert ''Command already executed''
      else Revert ''Already voted'')"

text \<open>The end of every voting window is a \<^verbatim>\<open>uint256\<close>: the addition in \<^verbatim>\<open>votingOpen\<close>
  does not overflow.\<close>

definition windows_fit :: "contract \<Rightarrow> bool" where
  "windows_fit s = (\<forall>p. unat (timestamp (commands s p)) + 604800 < 2 ^ 256)"

section \<open>Calls of one sender, and a scenario\<close>

text \<open>\<open>registers_as a tx\<close>: the transaction is a call of \<^verbatim>\<open>registerEnergyNode\<close> sent
  by \<open>a\<close>.\<close>

fun registers_as :: "address \<Rightarrow> env \<times> call \<Rightarrow> bool" where
  "registers_as a (e, RegisterEnergyNode loc cap) = (msg_sender e = a)"
| "registers_as a (e, _) = False"

definition sent_by :: "address \<Rightarrow> uint256 \<Rightarrow> env" where
  "sent_by a t = \<lparr>msg_sender = a, block_timestamp = t\<rparr>"

text \<open>The scenario of the specification: the deployer is address 1; node 10 registers
  with capacity 40 and node 11 with capacity 60; the owner proposes command 1. All at
  time 1000.\<close>

definition first_calls :: "(env \<times> call) list" where
  "first_calls = [(sent_by 10 1000, RegisterEnergyNode ''north'' 40),
            (sent_by 11 1000, RegisterEnergyNode ''south'' 60),
            (sent_by 1 1000, ProposeCommand ''REDUCE_LOAD_15%'' ''EU'' [1])]"

definition scenario :: contract where
  "scenario = run (constructor 1) first_calls"

text \<open>Node 10 then votes against command 1: the tally is 0 for and 40 against, quorum
  is met and approval is not, so the command stays open.\<close>

definition voted_against :: contract where
  "voted_against = run scenario [(sent_by 10 1000, VoteOnCommand 1 False)]"

text \<open>Or node 10 votes for command 1: the tally is 40 for and 0 against.\<close>

definition voted_for :: contract where
  "voted_for = run scenario [(sent_by 10 1000, VoteOnCommand 1 True)]"

text \<open>The owner then deactivates node 10.\<close>

definition left_grid :: contract where
  "left_grid = run voted_against [(sent_by 1 2000, DeactivateNode 10)]"

text \<open>A storage whose command 1 exists, is not executed and has the given tally, with
  the given aggregate; everything else as in \<open>s\<close>.\<close>

definition with_tally :: "uint256 \<Rightarrow> uint256 \<Rightarrow> uint256 \<Rightarrow> contract \<Rightarrow> contract" where
  "with_tally agg vf va s =
     s\<lparr>commands := (commands s)(1 := (commands s 1)
          \<lparr>executed := False, votesFor := vf, votesAgainst := va\<rparr>),
       commandCount := 1,
       totalActiveCapacity := agg\<rparr>"

section \<open>Checked arithmetic\<close>

lemma unat_checked_add: "checked_add a b = Some c \<Longrightarrow> unat c = unat a + unat b"
  by (auto simp: checked_add_def unat_word_ariths split: if_splits)

lemma checked_add_eq:
  "checked_add a b = (if unat a + unat b < 2 ^ 256 then Some (a + b) else None)"
  by (simp add: checked_add_def)

lemma unat_scaled:
  "checked_mul a b = Some c \<Longrightarrow> unat c = unat a * unat b"
  by (auto simp: checked_mul_def unat_word_ariths split: if_splits)

lemma unat_plus_exact: "unat (a :: uint256) + unat b < 2 ^ 256 \<Longrightarrow> unat (a + b) = unat a + unat b"
  by (simp add: unat_word_ariths)

section \<open>The sum over the active nodes\<close>

lemma sum_active_insert:
  fixes f :: "address \<Rightarrow> EnergyNode"
  assumes "\<not> isActive (f a)" "isActive n"
  shows "(\<Sum>b\<in>{b. isActive ((f(a := n)) b)}. unat (capacity ((f(a := n)) b)))
           = (\<Sum>b\<in>{b. isActive (f b)}. unat (capacity (f b))) + unat (capacity n)"
proof -
  define A where "A = {b. isActive (f b)}"
  define g where "g = f(a := n)"
  have fin: "finite A" by simp
  have notin: "a \<notin> A" using assms by (simp add: A_def)
  have set_eq: "{b. isActive (g b)} = insert a A"
    using assms by (auto simp: A_def g_def)
  have "(\<Sum>b\<in>insert a A. unat (capacity (g b)))
          = unat (capacity (g a)) + (\<Sum>b\<in>A. unat (capacity (g b)))"
    using fin notin by (rule sum.insert)
  moreover have "(\<Sum>b\<in>A. unat (capacity (g b))) = (\<Sum>b\<in>A. unat (capacity (f b)))"
    using notin by (intro sum.cong) (auto simp: g_def)
  moreover have "g a = n" by (simp add: g_def)
  ultimately have "(\<Sum>b\<in>{b. isActive (g b)}. unat (capacity (g b)))
          = (\<Sum>b\<in>A. unat (capacity (f b))) + unat (capacity n)"
    by (simp only: set_eq add.commute)
  then show ?thesis by (simp only: A_def g_def)
qed

lemma sum_active_remove:
  fixes f :: "address \<Rightarrow> EnergyNode"
  assumes "isActive (f a)" "\<not> isActive n"
  shows "(\<Sum>b\<in>{b. isActive ((f(a := n)) b)}. unat (capacity ((f(a := n)) b)))
           + unat (capacity (f a)) = (\<Sum>b\<in>{b. isActive (f b)}. unat (capacity (f b)))"
proof -
  define A where "A = {b. isActive (f b)}"
  define g where "g = f(a := n)"
  have fin: "finite A" by simp
  have isin: "a \<in> A" using assms by (simp add: A_def)
  have set_eq: "{b. isActive (g b)} = A - {a}"
    using assms by (auto simp: A_def g_def)
  have "(\<Sum>b\<in>A. unat (capacity (f b)))
          = unat (capacity (f a)) + (\<Sum>b\<in>A - {a}. unat (capacity (f b)))"
    using fin isin by (rule sum.remove)
  moreover have "(\<Sum>b\<in>A - {a}. unat (capacity (g b))) = (\<Sum>b\<in>A - {a}. unat (capacity (f b)))"
    by (intro sum.cong) (auto simp: g_def)
  ultimately have "(\<Sum>b\<in>{b. isActive (g b)}. unat (capacity (g b))) + unat (capacity (f a))
          = (\<Sum>b\<in>A. unat (capacity (f b)))"
    by (simp only: set_eq add.commute)
  then show ?thesis by (simp only: A_def g_def)
qed

lemma active_capacity_activate:
  assumes "\<not> isActive (energyNodes s a)" "isActive n"
  shows "active_capacity (s\<lparr>energyNodes := (energyNodes s)(a := n), totalActiveCapacity := t, events_log := l\<rparr>)
           = active_capacity s + unat (capacity n)"
  using assms sum_active_insert [of "energyNodes s" a n] by (simp add: active_capacity_def)

lemma active_capacity_deactivate:
  assumes "isActive (energyNodes s a)" "\<not> isActive n"
  shows "active_capacity (s\<lparr>energyNodes := (energyNodes s)(a := n), totalActiveCapacity := t, events_log := l\<rparr>)
           + unat (capacity (energyNodes s a)) = active_capacity s"
  using assms sum_active_remove [of "energyNodes s" a n] by (simp add: active_capacity_def)

lemma active_capacity_cong:
  "(\<And>a. isActive (energyNodes s' a) = isActive (energyNodes s a)) \<Longrightarrow>
   (\<And>a. capacity (energyNodes s' a) = capacity (energyNodes s a)) \<Longrightarrow>
   active_capacity s' = active_capacity s"
  by (simp add: active_capacity_def)

section \<open>What each call does when it succeeds\<close>

text \<open>A call that succeeds has passed its checks and has written one of the storages
  \<open>registered\<close>, \<open>deactivated\<close>, \<open>beat\<close>, \<open>proposed\<close>, \<open>tallied\<close> and \<open>marked_executed\<close>,
  or none.\<close>

lemma executeCommand_internal_Success:
  "executeCommand_internal cid s = Success r s' \<Longrightarrow>
     r = RVoid \<and> \<not> executed (commands s cid) \<and> s' = marked_executed cid s"
  by (auto simp: executeCommand_internal_def require_def emit_def upd_command_def Let_def
                 marked_executed_def split: if_splits)

lemma checkAndExecuteCommand_Success:
  assumes "checkAndExecuteCommand cid s = Success r s'"
  shows "r = RVoid \<and>
     (if quorum_met cid s \<and> approval_met cid s
      then \<not> executed (commands s cid) \<and> s' = marked_executed cid s
      else s' = s)"
proof -
  let ?vf = "votesFor (commands s cid)" and ?va = "votesAgainst (commands s cid)"
  from assms obtain tv sc where tv: "checked_add ?vf ?va = Some tv"
    and sc: "checked_mul (totalActiveCapacity s) MIN_PARTICIPATION_PERCENTAGE = Some sc"
    by (auto simp: checkAndExecuteCommand_def checked_def Let_def split: option.splits)
  have utv: "unat tv = unat ?vf + unat ?va" using tv by (rule unat_checked_add)
  have usc: "unat (sc div 100) = unat (totalActiveCapacity s) * 30 div 100"
    using unat_scaled [OF sc] by (simp add: unat_div MIN_PARTICIPATION_PERCENTAGE_def)
  have q: "tv < sc div 100 \<longleftrightarrow> \<not> quorum_met cid s"
    by (simp add: word_less_nat_alt utv usc quorum_met_def not_le)
  show ?thesis
  proof (cases "tv < sc div 100")
    case True
    with assms tv sc q show ?thesis
      by (auto simp: checkAndExecuteCommand_def checked_def Let_def)
  next
    case False
    show ?thesis
    proof (cases "0 < tv")
      case pos: True
      with assms tv sc False obtain fs where fs: "checked_mul ?vf 100 = Some fs"
        by (auto simp: checkAndExecuteCommand_def checked_def Let_def split: option.splits)
      have ap: "unat (fs div tv) = unat ?vf * 100 div (unat ?vf + unat ?va)"
        using unat_scaled [OF fs] by (simp add: unat_div utv)
      have a: "MIN_APPROVAL_PERCENTAGE \<le> fs div tv \<longleftrightarrow> approval_met cid s"
        using pos by (simp add: word_le_nat_alt ap approval_met_def MIN_APPROVAL_PERCENTAGE_def
                        utv [symmetric] word_less_nat_alt)
      from pos have "tv \<noteq> 0" by auto
      with assms tv sc False pos fs a q show ?thesis
        by (auto simp: checkAndExecuteCommand_def checked_def checked_div_def Let_def
                 dest: executeCommand_internal_Success)
    next
      case zero: False
      then have "unat ?vf + unat ?va = 0" using utv by (simp add: word_less_nat_alt)
      then have "\<not> approval_met cid s" by (simp add: approval_met_def)
      with assms tv sc False zero show ?thesis
        by (auto simp: checkAndExecuteCommand_def checked_def Let_def)
    qed
  qed
qed

lemma voteOnCommand_Success:
  "voteOnCommand e cid support s = Success r s' \<Longrightarrow>
     isActive (energyNodes s (msg_sender e)) \<and> 0 < cid \<and> cid \<le> commandCount s \<and>
     \<not> executed (commands s cid) \<and> \<not> hasVoted s cid (msg_sender e) \<and>
     unat (timestamp (commands s cid)) + 604800 < 2 ^ 256 \<and>
     unat (block_timestamp e) \<le> unat (timestamp (commands s cid)) + 604800 \<and>
     unat (totalVotesCast (energyNodes s (msg_sender e))) + 1 < 2 ^ 256 \<and>
     unat (if support then votesFor (commands s cid) else votesAgainst (commands s cid))
       + unat (votingPower (energyNodes s (msg_sender e))) < 2 ^ 256 \<and>
     checkAndExecuteCommand cid (tallied e cid support s) = Success r s'"
  by (auto simp: voteOnCommand_def guard_def require_def checked_def onlyActiveNode_def
                 commandExists_def votingOpen_def checked_add_eq upd_node_def upd_command_def
                 emit_def tallied_def Let_def VOTING_PERIOD_def word_le_nat_alt unat_word_ariths
           split: if_splits option.splits)

lemma registerEnergyNode_effect:
  "registerEnergyNode e loc cap s = Success r s' \<Longrightarrow>
     r = RVoid \<and> \<not> isActive (energyNodes s (msg_sender e)) \<and> 0 < cap \<and>
     unat (totalActiveCapacity s) + unat cap < 2 ^ 256 \<and> s' = registered e loc cap s"
  by (auto simp: registerEnergyNode_def require_def checked_def emit_def Let_def
                 checked_add_eq registered_def
           split: if_splits option.splits)

lemma deactivateNode_effect:
  "deactivateNode e a s = Success r s' \<Longrightarrow>
     r = RVoid \<and> owner s = msg_sender e \<and> isActive (energyNodes s a) \<and>
     unat (capacity (energyNodes s a)) \<le> unat (totalActiveCapacity s) \<and> s' = deactivated a s"
  by (auto simp: deactivateNode_def guard_def onlyOwner_def require_def checked_def emit_def
                 upd_node_def Let_def checked_sub_def deactivated_def
           split: if_splits option.splits)

lemma checkNodeHealth_effect:
  "checkNodeHealth e a s = Success r s' \<Longrightarrow>
     r = RVoid \<and> isActive (energyNodes s a) \<and>
     unat (lastHeartbeat (energyNodes s a)) + 2592000 < 2 ^ 256 \<and>
     (if unat (lastHeartbeat (energyNodes s a)) + 2592000 < unat (block_timestamp e)
      then unat (capacity (energyNodes s a)) \<le> unat (totalActiveCapacity s) \<and> s' = deactivated a s
      else s' = s)"
  by (auto simp: checkNodeHealth_def require_def checked_def emit_def
                 upd_node_def Let_def checked_sub_def deactivated_def checked_add_eq
                 THIRTY_DAYS_def word_less_nat_alt unat_word_ariths
           split: if_splits option.splits)

lemma heartbeat_effect:
  "heartbeat e s = Success r s' \<Longrightarrow>
     r = RVoid \<and> isActive (energyNodes s (msg_sender e)) \<and> s' = beat e s"
  by (auto simp: heartbeat_def guard_def onlyActiveNode_def upd_node_def beat_def
           split: if_splits option.splits)

lemma proposeCommand_effect:
  "proposeCommand e c rg p s = Success r s' \<Longrightarrow>
     r = RVoid \<and> owner s = msg_sender e \<and> c \<noteq> [] \<and> rg \<noteq> [] \<and> p \<noteq> [] \<and>
     unat (commandCount s) + 1 < 2 ^ 256 \<and>
     unat (block_timestamp e) + 604800 < 2 ^ 256 \<and> s' = proposed e c rg p s"
  by (auto simp: proposeCommand_def guard_def onlyOwner_def require_def checked_def emit_def
                 upd_command_def Let_def checked_add_eq proposed_def VOTING_PERIOD_def
           split: if_splits option.splits)

lemma executeCommand_effect:
  "executeCommand e cid s = Success r s' \<Longrightarrow>
     r = RVoid \<and> 0 < cid \<and> cid \<le> commandCount s \<and> \<not> executed (commands s cid) \<and>
     s' = marked_executed cid s"
  by (auto simp: executeCommand_def guard_def commandExists_def require_def checked_def Let_def
           dest!: executeCommand_internal_Success
           split: if_splits option.splits)

lemma voteOnCommand_effect:
  assumes "voteOnCommand e cid support s = Success r s'"
  shows "r = RVoid \<and> isActive (energyNodes s (msg_sender e)) \<and>
     \<not> executed (commands s cid) \<and> \<not> hasVoted s cid (msg_sender e) \<and>
     unat (totalVotesCast (energyNodes s (msg_sender e))) + 1 < 2 ^ 256 \<and>
     unat (if support then votesFor (commands s cid) else votesAgainst (commands s cid))
       + unat (votingPower (energyNodes s (msg_sender e))) < 2 ^ 256 \<and>
     (s' = tallied e cid support s \<or>
      \<not> executed (commands (tallied e cid support s) cid) \<and>
      s' = marked_executed cid (tallied e cid support s))"
  using voteOnCommand_Success [OF assms]
    checkAndExecuteCommand_Success [of cid "tallied e cid support s" r s']
  by (auto split: if_splits)

lemma views_effect:
  "getVotingPower a s = Success r s' \<Longrightarrow> s' = s"
  "getCommandStatus cid s = Success r s' \<Longrightarrow> s' = s"
  "getTotalGridCapacity s = Success r s' \<Longrightarrow> s' = s"
  "emergencyShutdown e s = Success r s' \<Longrightarrow> s' = s"
  by (auto simp: getVotingPower_def getCommandStatus_def getTotalGridCapacity_def
                 emergencyShutdown_def guard_def checked_def Let_def
           split: if_splits option.splits)

section \<open>Transactions and invariants\<close>

text \<open>A property that holds of a storage and is kept by each of the writes, under the
  checks the call has passed, holds after every transaction, and so after every
  sequence of transactions.\<close>

lemma run_Nil: "run s [] = s"
  by (simp add: run_def)

lemma run_Cons: "run s (tx # txs) = run (transact s tx) txs"
  by (simp add: run_def)

lemma run_append: "run s (xs @ ys) = run (run s xs) ys"
  by (simp add: run_def)

lemma transact_cases:
  "transact s (e, c) = s \<or> (\<exists>r. dispatch e c s = Success r (transact s (e, c)))"
  by (cases "dispatch e c s") (simp_all add: transact_def)

lemma step_invariant:
  assumes P: "P s"
    and reg: "\<And>e loc cap. \<not> isActive (energyNodes s (msg_sender e)) \<Longrightarrow> 0 < cap \<Longrightarrow>
        unat (totalActiveCapacity s) + unat cap < 2 ^ 256 \<Longrightarrow> P (registered e loc cap s)"
    and deact: "\<And>a. isActive (energyNodes s a) \<Longrightarrow>
        unat (capacity (energyNodes s a)) \<le> unat (totalActiveCapacity s) \<Longrightarrow> P (deactivated a s)"
    and beat: "\<And>e. isActive (energyNodes s (msg_sender e)) \<Longrightarrow> P (beat e s)"
    and prps: "\<And>e c rg p. unat (commandCount s) + 1 < 2 ^ 256 \<Longrightarrow>
        unat (block_timestamp e) + 604800 < 2 ^ 256 \<Longrightarrow> P (proposed e c rg p s)"
    and vote: "\<And>e cid support. isActive (energyNodes s (msg_sender e)) \<Longrightarrow>
        \<not> executed (commands s cid) \<Longrightarrow> \<not> hasVoted s cid (msg_sender e) \<Longrightarrow>
        unat (totalVotesCast (energyNodes s (msg_sender e))) + 1 < 2 ^ 256 \<Longrightarrow>
        unat (if support then votesFor (commands s cid) else votesAgainst (commands s cid))
          + unat (votingPower (energyNodes s (msg_sender e))) < 2 ^ 256 \<Longrightarrow>
        P (tallied e cid support s)"
    and vote_exec: "\<And>e cid support. isActive (energyNodes s (msg_sender e)) \<Longrightarrow>
        \<not> executed (commands s cid) \<Longrightarrow> \<not> hasVoted s cid (msg_sender e) \<Longrightarrow>
        unat (totalVotesCast (energyNodes s (msg_sender e))) + 1 < 2 ^ 256 \<Longrightarrow>
        unat (if support then votesFor (commands s cid) else votesAgainst (commands s cid))
          + unat (votingPower (energyNodes s (msg_sender e))) < 2 ^ 256 \<Longrightarrow>
        P (marked_executed cid (tallied e cid support s))"
    and exec: "\<And>cid. \<not> executed (commands s cid) \<Longrightarrow> P (marked_executed cid s)"
  shows "P (transact s tx)"
proof -
  obtain e c where tx: "tx = (e, c)" by (cases tx)
  consider "transact s (e, c) = s" | r where "dispatch e c s = Success r (transact s (e, c))"
    using transact_cases by blast
  then show ?thesis
  proof cases
    case 1
    with P tx show ?thesis by simp
  next
    case 2
    show ?thesis
    proof (cases c)
      case (ProposeCommand x1 x2 x3)
      with 2 proposeCommand_effect [of e x1 x2 x3 s r "transact s (e, c)"] prps tx
      show ?thesis by simp
    next
      case (VoteOnCommand cid support)
      with 2 voteOnCommand_effect [of e cid support s r "transact s (e, c)"] vote vote_exec tx
      show ?thesis by auto
    next
      case (ExecuteCommand cid)
      with 2 executeCommand_effect [of e cid s r "transact s (e, c)"] exec tx
      show ?thesis by simp
    next
      case (RegisterEnergyNode loc cap)
      with 2 registerEnergyNode_effect [of e loc cap s r "transact s (e, c)"] reg tx
      show ?thesis by simp
    next
      case Heartbeat
      with 2 heartbeat_effect [of e s r "transact s (e, c)"] beat tx
      show ?thesis by simp
    next
      case (DeactivateNode a)
      with 2 deactivateNode_effect [of e a s r "transact s (e, c)"] deact tx
      show ?thesis by simp
    next
      case (CheckNodeHealth a)
      with 2 checkNodeHealth_effect [of e a s r "transact s (e, c)"] deact P tx
      show ?thesis by (auto split: if_splits)
    next
      case (GetVotingPower a)
      with 2 views_effect(1) [of a s r "transact s (e, c)"] P tx show ?thesis by simp
    next
      case (GetCommandStatus cid)
      with 2 views_effect(2) [of cid s r "transact s (e, c)"] P tx show ?thesis by simp
    next
      case GetTotalGridCapacity
      with 2 views_effect(3) [of s r "transact s (e, c)"] P tx show ?thesis by simp
    next
      case EmergencyShutdown
      with 2 views_effect(4) [of e s r "transact s (e, c)"] P tx show ?thesis by simp
    qed
  qed
qed

lemma run_invariant:
  assumes "P s" and "\<And>s tx. P s \<Longrightarrow> P (transact s tx)"
  shows "P (run s txs)"
  using assms(1)
proof (induction txs arbitrary: s)
  case Nil
  then show ?case by (simp add: run_Nil)
next
  case (Cons tx txs)
  then show ?case by (simp add: run_Cons assms(2))
qed

section \<open>The aggregate invariant\<close>

lemma capacity_consistent_constructor: "capacity_consistent (constructor d)"
  by (simp add: capacity_consistent_def active_capacity_def constructor_def zero_node_def)

lemma capacity_consistent_step:
  assumes "capacity_consistent s"
  shows "capacity_consistent (transact s tx)"
proof (rule step_invariant [where P = capacity_consistent and s = s])
  show "capacity_consistent s" by (rule assms)
next
  fix e :: env and loc and cap :: uint256
  assume a: "\<not> isActive (energyNodes s (msg_sender e))"
    and b: "unat (totalActiveCapacity s) + unat cap < 2 ^ 256"
  have "active_capacity (registered e loc cap s) = active_capacity s + unat cap"
    unfolding registered_def using a by (subst active_capacity_activate) simp_all
  with assms b show "capacity_consistent (registered e loc cap s)"
    by (simp add: capacity_consistent_def registered_def unat_plus_exact)
next
  fix a
  assume a: "isActive (energyNodes s a)"
    and b: "unat (capacity (energyNodes s a)) \<le> unat (totalActiveCapacity s)"
  have "active_capacity (deactivated a s) + unat (capacity (energyNodes s a)) = active_capacity s"
    unfolding deactivated_def using a by (intro active_capacity_deactivate) simp_all
  with assms b show "capacity_consistent (deactivated a s)"
    by (simp add: capacity_consistent_def deactivated_def unat_sub word_le_nat_alt)
next
  fix e :: env
  have "active_capacity (beat e s) = active_capacity s"
    by (rule active_capacity_cong) (simp_all add: beat_def)
  with assms show "capacity_consistent (beat e s)"
    by (simp add: capacity_consistent_def beat_def)
next
  fix e :: env and c rg p
  have "active_capacity (proposed e c rg p s) = active_capacity s"
    by (rule active_capacity_cong) (simp_all add: proposed_def Let_def)
  with assms show "capacity_consistent (proposed e c rg p s)"
    by (simp add: capacity_consistent_def proposed_def Let_def)
next
  fix e :: env and cid support
  have "active_capacity (tallied e cid support s) = active_capacity s"
    by (rule active_capacity_cong) (simp_all add: tallied_def Let_def)
  with assms show t: "capacity_consistent (tallied e cid support s)"
    by (simp add: capacity_consistent_def tallied_def Let_def)
  have "active_capacity (marked_executed cid (tallied e cid support s))
          = active_capacity (tallied e cid support s)"
    by (rule active_capacity_cong) (simp_all add: marked_executed_def Let_def)
  with t show "capacity_consistent (marked_executed cid (tallied e cid support s))"
    by (simp add: capacity_consistent_def marked_executed_def Let_def)
next
  fix cid
  have "active_capacity (marked_executed cid s) = active_capacity s"
    by (rule active_capacity_cong) (simp_all add: marked_executed_def Let_def)
  with assms show "capacity_consistent (marked_executed cid s)"
    by (simp add: capacity_consistent_def marked_executed_def Let_def)
qed

lemma capacity_consistent_run:
  "capacity_consistent s \<Longrightarrow> capacity_consistent (run s txs)"
  by (rule run_invariant) (simp_all add: capacity_consistent_step)

section \<open>The event log agrees with the storage\<close>

lemma votes_logged_snoc [simp]:
  "votes_logged p a (evs @ [ev]) = votes_logged p a evs + vote_count p a ev"
  "votes_logged p a [] = 0"
  by (simp_all add: votes_logged_def)

lemma weight_logged_snoc [simp]:
  "weight_logged p side (evs @ [ev]) = weight_logged p side evs + vote_weight p side ev"
  "weight_logged p side [] = 0"
  by (simp_all add: weight_logged_def)

lemma executions_logged_snoc [simp]:
  "executions_logged p (evs @ [ev]) = executions_logged p evs + execution_count p ev"
  "executions_logged p [] = 0"
  by (simp_all add: executions_logged_def)

lemma votes_logged_append2 [simp]:
  "votes_logged p a (evs @ [ev1, ev2]) = votes_logged p a evs + vote_count p a ev1 + vote_count p a ev2"
  by (simp add: votes_logged_def)

lemma weight_logged_append2 [simp]:
  "weight_logged p side (evs @ [ev1, ev2])
     = weight_logged p side evs + vote_weight p side ev1 + vote_weight p side ev2"
  by (simp add: weight_logged_def)

lemma signals_logged_snoc [simp]:
  "signals_logged p (evs @ [ev]) = signals_logged p evs + signal_count p ev"
  "signals_logged p [] = 0"
  by (simp_all add: signals_logged_def)

lemma signals_logged_append2 [simp]:
  "signals_logged p (evs @ [ev1, ev2])
     = signals_logged p evs + signal_count p ev1 + signal_count p ev2"
  by (simp add: signals_logged_def)

lemma executions_logged_append2 [simp]:
  "executions_logged p (evs @ [ev1, ev2])
     = executions_logged p evs + execution_count p ev1 + execution_count p ev2"
  by (simp add: executions_logged_def)

lemma votes_recorded_step:
  assumes "votes_recorded s"
  shows "votes_recorded (transact s tx)"
proof (rule step_invariant [where P = votes_recorded and s = s])
  show "votes_recorded s" by (rule assms)
next
  fix e :: env and loc and cap :: uint256
  show "votes_recorded (registered e loc cap s)"
    using assms by (simp add: votes_recorded_def registered_def)
next
  fix a
  show "votes_recorded (deactivated a s)"
    using assms by (simp add: votes_recorded_def deactivated_def)
next
  fix e :: env
  show "votes_recorded (beat e s)"
    using assms by (simp add: votes_recorded_def beat_def)
next
  fix e :: env and c rg p
  show "votes_recorded (proposed e c rg p s)"
    using assms by (simp add: votes_recorded_def proposed_def Let_def)
next
  fix e :: env and cid support
  assume "\<not> hasVoted s cid (msg_sender e)"
  then show t: "votes_recorded (tallied e cid support s)"
    using assms by (auto simp: votes_recorded_def tallied_def Let_def)
  then show "votes_recorded (marked_executed cid (tallied e cid support s))"
    by (simp add: votes_recorded_def marked_executed_def Let_def)
next
  fix cid
  show "votes_recorded (marked_executed cid s)"
    using assms by (simp add: votes_recorded_def marked_executed_def Let_def)
qed

lemma tallies_recorded_step:
  assumes "tallies_recorded s"
  shows "tallies_recorded (transact s tx)"
proof (rule step_invariant [where P = tallies_recorded and s = s])
  show "tallies_recorded s" by (rule assms)
next
  fix e :: env and loc and cap :: uint256
  show "tallies_recorded (registered e loc cap s)"
    using assms by (simp add: tallies_recorded_def registered_def)
next
  fix a
  show "tallies_recorded (deactivated a s)"
    using assms by (simp add: tallies_recorded_def deactivated_def)
next
  fix e :: env
  show "tallies_recorded (beat e s)"
    using assms by (simp add: tallies_recorded_def beat_def)
next
  fix e :: env and c rg p
  show "tallies_recorded (proposed e c rg p s)"
    using assms by (simp add: tallies_recorded_def proposed_def Let_def)
next
  fix e :: env and cid support
  assume "unat (if support then votesFor (commands s cid) else votesAgainst (commands s cid))
          + unat (votingPower (energyNodes s (msg_sender e))) < 2 ^ 256"
  then show t: "tallies_recorded (tallied e cid support s)"
    using assms by (auto simp: tallies_recorded_def tallied_def Let_def unat_plus_exact)
  then show "tallies_recorded (marked_executed cid (tallied e cid support s))"
    by (simp add: tallies_recorded_def marked_executed_def Let_def)
next
  fix cid
  show "tallies_recorded (marked_executed cid s)"
    using assms by (simp add: tallies_recorded_def marked_executed_def Let_def)
qed

lemma executions_recorded_step:
  assumes "executions_recorded s"
  shows "executions_recorded (transact s tx)"
proof (rule step_invariant [where P = executions_recorded and s = s])
  show "executions_recorded s" by (rule assms)
next
  fix e :: env and loc and cap :: uint256
  show "executions_recorded (registered e loc cap s)"
    using assms by (simp add: executions_recorded_def registered_def)
next
  fix a
  show "executions_recorded (deactivated a s)"
    using assms by (simp add: executions_recorded_def deactivated_def)
next
  fix e :: env
  show "executions_recorded (beat e s)"
    using assms by (simp add: executions_recorded_def beat_def)
next
  fix e :: env and c rg p
  show "executions_recorded (proposed e c rg p s)"
    using assms by (simp add: executions_recorded_def proposed_def Let_def)
next
  fix e :: env and cid support
  assume ne: "\<not> executed (commands s cid)"
  show t: "executions_recorded (tallied e cid support s)"
    using assms by (simp add: executions_recorded_def tallied_def Let_def)
  have "\<not> executed (commands (tallied e cid support s) cid)"
    using ne by (simp add: tallied_def Let_def)
  with t show "executions_recorded (marked_executed cid (tallied e cid support s))"
    by (simp add: executions_recorded_def marked_executed_def Let_def)
next
  fix cid
  assume "\<not> executed (commands s cid)"
  then show "executions_recorded (marked_executed cid s)"
    using assms by (simp add: executions_recorded_def marked_executed_def Let_def)
qed

lemma log_invariants_constructor:
  "votes_recorded (constructor d)" "tallies_recorded (constructor d)"
  "executions_recorded (constructor d)"
  by (simp_all add: votes_recorded_def tallies_recorded_def executions_recorded_def
        constructor_def zero_command_def)

section \<open>Where a call can fail\<close>

lemma executeCommand_internal_Failure:
  "executeCommand_internal cid s = Failure err s' \<Longrightarrow> s' = s \<and> executed (commands s cid)"
  by (auto simp: executeCommand_internal_def require_def Let_def split: if_splits)

lemma checkAndExecuteCommand_Failure:
  "checkAndExecuteCommand cid s = Failure err s' \<Longrightarrow>
     s' = s \<and> (err = Panic \<or> executed (commands s cid))"
  by (auto simp: checkAndExecuteCommand_def checked_def Let_def
           dest: executeCommand_internal_Failure split: if_splits option.splits)

lemma votingOpen_None:
  "votingOpen e cid s = None \<Longrightarrow> \<not> executed (commands s cid)"
  by (auto simp: votingOpen_def Let_def split: option.splits if_splits)

lemma voteOnCommand_Revert:
  assumes "voteOnCommand e cid support s = Failure (Revert msg) s'"
  shows "s' = s"
proof (cases "onlyActiveNode e s = None \<and> commandExists cid s = None \<and>
              votingOpen e cid s = None \<and> \<not> hasVoted s cid (msg_sender e)")
  case False
  with assms show ?thesis
    by (auto simp: voteOnCommand_def guard_def require_def split: option.splits if_splits)
next
  case True
  then have ne: "\<not> executed (commands s cid)" using votingOpen_None by blast
  from assms True obtain s4 where
    "checkAndExecuteCommand cid s4 = Failure (Revert msg) s'"
    "executed (commands s4 cid) = executed (commands s cid)"
    by (auto simp: voteOnCommand_def guard_def require_def checked_def Let_def
                   upd_node_def upd_command_def emit_def
             split: option.splits if_splits)
  with ne checkAndExecuteCommand_Failure [of cid s4 "Revert msg" s'] show ?thesis by simp
qed

lemma executeCommand_Revert:
  "executeCommand e cid s = Failure err s' \<Longrightarrow> s' = s"
  by (auto simp: executeCommand_def guard_def require_def checked_def Let_def
           dest: executeCommand_internal_Failure split: option.splits if_splits)

lemma proposeCommand_Revert:
  "proposeCommand e c rg p s = Failure (Revert msg) s' \<Longrightarrow> s' = s"
  by (auto simp: proposeCommand_def guard_def require_def checked_def Let_def onlyOwner_def
           split: option.splits if_splits)

lemma registerEnergyNode_Revert:
  "registerEnergyNode e loc cap s = Failure (Revert msg) s' \<Longrightarrow> s' = s"
  by (auto simp: registerEnergyNode_def require_def checked_def Let_def
           split: option.splits if_splits)

lemma heartbeat_Revert:
  "heartbeat e s = Failure err s' \<Longrightarrow> s' = s"
  by (auto simp: heartbeat_def guard_def split: option.splits if_splits)

lemma deactivateNode_Revert:
  "deactivateNode e a s = Failure (Revert msg) s' \<Longrightarrow> s' = s"
  by (auto simp: deactivateNode_def guard_def require_def checked_def Let_def onlyOwner_def
           split: option.splits if_splits)

lemma checkNodeHealth_Revert:
  "checkNodeHealth e a s = Failure err s' \<Longrightarrow> s' = s"
  by (auto simp: checkNodeHealth_def require_def checked_def Let_def
           split: option.splits if_splits)

lemma views_Revert:
  "getVotingPower a s = Failure err s' \<Longrightarrow> s' = s"
  "getCommandStatus cid s = Failure err s' \<Longrightarrow> s' = s"
  "getTotalGridCapacity s = Failure err s' \<Longrightarrow> s' = s"
  "emergencyShutdown e s = Failure err s' \<Longrightarrow> s' = s"
  by (auto simp: getVotingPower_def getCommandStatus_def getTotalGridCapacity_def
                 emergencyShutdown_def guard_def checked_def Let_def
           split: if_splits option.splits)

lemma dispatch_Revert:
  "dispatch e c s = Failure (Revert msg) s' \<Longrightarrow> s' = s"
  by (cases c)
     (auto dest: voteOnCommand_Revert executeCommand_Revert proposeCommand_Revert
                 registerEnergyNode_Revert heartbeat_Revert deactivateNode_Revert
                 checkNodeHealth_Revert views_Revert)

section \<open>Evaluation on concrete storages\<close>

lemmas call_defs = registerEnergyNode_def proposeCommand_def voteOnCommand_def
  executeCommand_def executeCommand_internal_def checkAndExecuteCommand_def heartbeat_def
  deactivateNode_def checkNodeHealth_def getCommandStatus_def getVotingPower_def
  require_def guard_def checked_def
  onlyOwner_def onlyActiveNode_def commandExists_def votingOpen_def
  checked_add_def checked_sub_def checked_mul_def checked_div_def
  emit_def upd_command_def upd_node_def Let_def
  VOTING_PERIOD_def EXECUTION_DELAY_def MIN_APPROVAL_PERCENTAGE_def
  MIN_PARTICIPATION_PERCENTAGE_def THIRTY_DAYS_def

lemmas scenario_defs = scenario_def voted_against_def voted_for_def left_grid_def first_calls_def sent_by_def run_def transact_def
  constructor_def zero_node_def zero_command_def

section \<open>The aggregate is the sum of the active capacities\<close>

text \<open>
  C1. For every sequence of calls (register, deactivate and checkHealth among them) run
  from the freshly constructed contract, \<open>totalActiveCapacity\<close> equals the sum of
  \<open>capacity\<close> over the nodes whose \<open>isActive\<close> flag is set. The sequence is arbitrary,
  so the equation holds after every prefix of it, that is, after every mutation.
\<close>

theorem totalActiveCapacity_is_sum_of_active:
  "unat (totalActiveCapacity (run (constructor deployer) txs))
     = (\<Sum>a\<in>{a. isActive (energyNodes (run (constructor deployer) txs) a)}.
          unat (capacity (energyNodes (run (constructor deployer) txs) a)))"
  using capacity_consistent_run [OF capacity_consistent_constructor, of deployer txs]
  by (simp add: capacity_consistent_def active_capacity_def)

theorem totalActiveCapacity_is_sum_of_active_witness:
  "(\<Sum>a\<in>{a. isActive (energyNodes scenario a)}. unat (capacity (energyNodes scenario a))) = 100"
proof -
  have e: "unat (totalActiveCapacity (run (constructor 1) first_calls)) = 100"
    by (simp add: scenario_defs call_defs)
  show ?thesis
    unfolding scenario_def
    by (rule trans [OF totalActiveCapacity_is_sum_of_active [symmetric] e])
qed

section \<open>Health expiry\<close>

lemma capacity_le_total:
  assumes "capacity_consistent s" "isActive (energyNodes s a)"
  shows "unat (capacity (energyNodes s a)) \<le> unat (totalActiveCapacity s)"
proof -
  have "unat (capacity (energyNodes s a))
          \<le> (\<Sum>b\<in>{b. isActive (energyNodes s b)}. unat (capacity (energyNodes s b)))"
    using assms(2) by (intro member_le_sum) simp_all
  with assms(1) show ?thesis
    by (simp add: capacity_consistent_def active_capacity_def)
qed

lemma checkNodeHealth_eval:
  assumes "unat (capacity (energyNodes s a)) \<le> unat (totalActiveCapacity s)"
  shows "checkNodeHealth e a s =
     (if \<not> isActive (energyNodes s a) then Failure (Revert ''Node not active'') s
      else if unat (lastHeartbeat (energyNodes s a)) + 2592000 < unat (block_timestamp e)
      then Success RVoid (deactivated a s)
      else if unat (lastHeartbeat (energyNodes s a)) + 2592000 < 2 ^ 256
      then Success RVoid s
      else Failure Panic s)"
proof -
  have bound: "unat (block_timestamp e) < 2 ^ 256"
    using unsigned_less [of "block_timestamp e"] by simp
  show ?thesis
    using assms bound
    by (auto simp: checkNodeHealth_def require_def checked_def checked_add_def checked_sub_def
                   emit_def upd_node_def Let_def deactivated_def THIRTY_DAYS_def
                   word_less_nat_alt unat_word_ariths)
qed

text \<open>
  C6. In every storage reached from the constructor, for every node \<open>a\<close> and every
  call environment: if the node is active and \<^verbatim>\<open>now - lastHeartbeat\<close> (as integers)
  exceeds 30 days (2592000 seconds), \<^verbatim>\<open>checkNodeHealth\<close> succeeds, clears \<open>isActive\<close> and
  subtracts the node's capacity from \<open>totalActiveCapacity\<close> (\<open>deactivated\<close>); if the node
  is active and fresh the call changes no storage; if the node is inactive the call
  fails with "Node not active" and the storage is as before.
\<close>

theorem checkNodeHealth_expires_stale_node:
  "(isActive (energyNodes (run (constructor d) txs) a) \<and>
    2592000 < int (unat (block_timestamp e))
                - int (unat (lastHeartbeat (energyNodes (run (constructor d) txs) a))) \<longrightarrow>
      checkNodeHealth e a (run (constructor d) txs)
        = Success RVoid (deactivated a (run (constructor d) txs)) \<and>
      \<not> isActive (energyNodes (deactivated a (run (constructor d) txs)) a) \<and>
      unat (totalActiveCapacity (deactivated a (run (constructor d) txs)))
        = unat (totalActiveCapacity (run (constructor d) txs))
            - unat (capacity (energyNodes (run (constructor d) txs) a)) \<and>
      unat (capacity (energyNodes (run (constructor d) txs) a))
        \<le> unat (totalActiveCapacity (run (constructor d) txs))) \<and>
   (isActive (energyNodes (run (constructor d) txs) a) \<and>
    \<not> 2592000 < int (unat (block_timestamp e))
                - int (unat (lastHeartbeat (energyNodes (run (constructor d) txs) a))) \<longrightarrow>
      storage_of (checkNodeHealth e a (run (constructor d) txs)) = run (constructor d) txs \<and>
      transact (run (constructor d) txs) (e, CheckNodeHealth a) = run (constructor d) txs) \<and>
   (\<not> isActive (energyNodes (run (constructor d) txs) a) \<longrightarrow>
      checkNodeHealth e a (run (constructor d) txs)
        = Failure (Revert ''Node not active'') (run (constructor d) txs) \<and>
      transact (run (constructor d) txs) (e, CheckNodeHealth a) = run (constructor d) txs)"
proof -
  define s where "s = run (constructor d) txs"
  have inv: "capacity_consistent s"
    unfolding s_def by (rule capacity_consistent_run [OF capacity_consistent_constructor])
  have le: "isActive (energyNodes s a) \<Longrightarrow>
              unat (capacity (energyNodes s a)) \<le> unat (totalActiveCapacity s)"
    using inv by (rule capacity_le_total)
  have inactive: "\<not> isActive (energyNodes s a) \<Longrightarrow>
      checkNodeHealth e a s = Failure (Revert ''Node not active'') s"
    by (simp add: checkNodeHealth_def require_def Let_def)
  have active: "isActive (energyNodes s a) \<Longrightarrow> checkNodeHealth e a s =
      (if unat (lastHeartbeat (energyNodes s a)) + 2592000 < unat (block_timestamp e)
       then Success RVoid (deactivated a s)
       else if unat (lastHeartbeat (energyNodes s a)) + 2592000 < 2 ^ 256
       then Success RVoid s
       else Failure Panic s)"
    using checkNodeHealth_eval [OF le, of e] by simp
  have sub: "isActive (energyNodes s a) \<Longrightarrow>
      unat (totalActiveCapacity (deactivated a s))
        = unat (totalActiveCapacity s) - unat (capacity (energyNodes s a))"
    using le by (simp add: deactivated_def unat_sub word_le_nat_alt)
  have stale: "(2592000 < int (unat (block_timestamp e))
                          - int (unat (lastHeartbeat (energyNodes s a))))
        = (unat (lastHeartbeat (energyNodes s a)) + 2592000 < unat (block_timestamp e))"
    by linarith
  show ?thesis
    unfolding s_def [symmetric] stale
    using inactive active sub le
    by (auto simp: transact_def deactivated_def)
qed

theorem checkNodeHealth_expires_stale_node_witness:
  "checkNodeHealth (sent_by 7 2593001) 10 scenario = Success RVoid (deactivated 10 scenario) \<and>
   unat (totalActiveCapacity scenario) = 100 \<and>
   unat (totalActiveCapacity (deactivated 10 scenario)) = 60 \<and>
   transact scenario (sent_by 7 2593000, CheckNodeHealth 10) = scenario \<and>
   transact (deactivated 10 scenario) (sent_by 7 2593001, CheckNodeHealth 10)
     = deactivated 10 scenario"
proof -
  have node: "isActive (energyNodes (run (constructor 1) first_calls) 10)"
    "lastHeartbeat (energyNodes (run (constructor 1) first_calls) 10) = 1000"
    "capacity (energyNodes (run (constructor 1) first_calls) 10) = 40"
    "unat (totalActiveCapacity (run (constructor 1) first_calls)) = 100"
    by (simp_all add: scenario_defs call_defs)
  have again: "transact (deactivated 10 scenario) (sent_by 7 2593001, CheckNodeHealth 10)
     = deactivated 10 scenario"
    by (simp add: transact_def checkNodeHealth_def require_def deactivated_def)
  from checkNodeHealth_expires_stale_node [of 1 first_calls 10 "sent_by 7 2593001"]
       checkNodeHealth_expires_stale_node [of 1 first_calls 10 "sent_by 7 2593000"]
       node again
  show ?thesis by (simp add: scenario_def sent_by_def)
qed

section \<open>Registration\<close>

text \<open>
  C7, as amended. Every successful \<^verbatim>\<open>registerEnergyNode\<close> call stores the record with
  \<open>votingPower = capacity\<close>, \<open>isActive = True\<close>, \<open>lastHeartbeat = now\<close> (and
  \<open>totalVotesCast = 0\<close>), adds the capacity to \<open>totalActiveCapacity\<close>, and reports the
  assigned voting power in the \<open>NodeRegistered\<close> event; the call itself returns no value.
\<close>

theorem registerEnergyNode_creates_record:
  "registerEnergyNode e loc cap s = Success r s' \<Longrightarrow>
     energyNodes s' (msg_sender e) =
       \<lparr>nodeAddress = msg_sender e, location = loc, capacity = cap, isActive = True,
        lastHeartbeat = block_timestamp e, votingPower = cap, totalVotesCast = 0\<rparr> \<and>
     unat (totalActiveCapacity s') = unat (totalActiveCapacity s) + unat cap \<and>
     events_log s' = events_log s @ [NodeRegistered (msg_sender e) loc cap cap] \<and>
     r = RVoid"
  by (auto dest!: registerEnergyNode_effect simp: registered_def unat_plus_exact)

theorem registerEnergyNode_creates_record_witness:
  "energyNodes (storage_of (registerEnergyNode (sent_by 10 1000) ''north'' 40 (constructor 1))) 10 =
       \<lparr>nodeAddress = 10, location = ''north'', capacity = 40, isActive = True,
        lastHeartbeat = 1000, votingPower = 40, totalVotesCast = 0\<rparr> \<and>
   unat (totalActiveCapacity
          (storage_of (registerEnergyNode (sent_by 10 1000) ''north'' 40 (constructor 1)))) = 40"
proof -
  have run: "registerEnergyNode (sent_by 10 1000) ''north'' 40 (constructor 1)
               = Success RVoid (registered (sent_by 10 1000) ''north'' 40 (constructor 1))"
    by (simp add: call_defs registered_def sent_by_def constructor_def zero_node_def)
  show ?thesis
    unfolding run storage_of.simps
    using registerEnergyNode_creates_record [OF run]
    by (simp add: sent_by_def constructor_def)
qed

text \<open>The claim as stated has the call return the voting power. The function has no
  return value: registering capacity 40 returns nothing, while the voting power 40 is in
  the record.\<close>

theorem registerEnergyNode_returns_nothing:
  "returned (registerEnergyNode (sent_by 10 1000) ''north'' 40 (constructor 1)) = Some RVoid \<and>
   returned (registerEnergyNode (sent_by 10 1000) ''north'' 40 (constructor 1)) \<noteq> Some (RUint 40) \<and>
   votingPower (energyNodes
     (storage_of (registerEnergyNode (sent_by 10 1000) ''north'' 40 (constructor 1))) 10) = 40"
  by (simp add: call_defs sent_by_def constructor_def zero_node_def)

section \<open>Records persist\<close>

lemma transact_node_frame:
  assumes "\<not> registers_as a tx"
  shows "capacity (energyNodes (transact s tx) a) = capacity (energyNodes s a) \<and>
         location (energyNodes (transact s tx) a) = location (energyNodes s a) \<and>
         (\<not> isActive (energyNodes s a) \<longrightarrow> energyNodes (transact s tx) a = energyNodes s a)"
proof -
  obtain e c where tx: "tx = (e, c)" by (cases tx)
  consider "transact s (e, c) = s" | r where "dispatch e c s = Success r (transact s (e, c))"
    using transact_cases by blast
  then show ?thesis
  proof cases
    case 1
    with tx show ?thesis by simp
  next
    case 2
    show ?thesis
    proof (cases c)
      case (ProposeCommand x1 x2 x3)
      with 2 proposeCommand_effect [of e x1 x2 x3 s r "transact s (e, c)"] tx
      show ?thesis by (simp add: proposed_def Let_def)
    next
      case (VoteOnCommand cid support)
      with 2 voteOnCommand_effect [of e cid support s r "transact s (e, c)"] tx
      show ?thesis by (auto simp: tallied_def marked_executed_def Let_def)
    next
      case (ExecuteCommand cid)
      with 2 executeCommand_effect [of e cid s r "transact s (e, c)"] tx
      show ?thesis by (simp add: marked_executed_def Let_def)
    next
      case (RegisterEnergyNode loc cap)
      with 2 registerEnergyNode_effect [of e loc cap s r "transact s (e, c)"] tx assms
      show ?thesis by (simp add: registered_def)
    next
      case Heartbeat
      with 2 heartbeat_effect [of e s r "transact s (e, c)"] tx
      show ?thesis by (auto simp: beat_def)
    next
      case (DeactivateNode b)
      with 2 deactivateNode_effect [of e b s r "transact s (e, c)"] tx
      show ?thesis by (auto simp: deactivated_def)
    next
      case (CheckNodeHealth b)
      with 2 checkNodeHealth_effect [of e b s r "transact s (e, c)"] tx
      show ?thesis by (auto simp: deactivated_def split: if_splits)
    next
      case (GetVotingPower b)
      with 2 views_effect(1) [of b s r "transact s (e, c)"] tx show ?thesis by simp
    next
      case (GetCommandStatus cid)
      with 2 views_effect(2) [of cid s r "transact s (e, c)"] tx show ?thesis by simp
    next
      case GetTotalGridCapacity
      with 2 views_effect(3) [of s r "transact s (e, c)"] tx show ?thesis by simp
    next
      case EmergencyShutdown
      with 2 views_effect(4) [of e s r "transact s (e, c)"] tx show ?thesis by simp
    qed
  qed
qed

lemma run_node_frame:
  "list_all (\<lambda>tx. \<not> registers_as a tx) txs \<Longrightarrow>
     capacity (energyNodes (run s txs) a) = capacity (energyNodes s a) \<and>
     location (energyNodes (run s txs) a) = location (energyNodes s a) \<and>
     (\<not> isActive (energyNodes s a) \<longrightarrow> energyNodes (run s txs) a = energyNodes s a)"
proof (induction txs arbitrary: s)
  case Nil
  then show ?case by (simp add: run_Nil)
next
  case (Cons tx txs)
  then have tx: "\<not> registers_as a tx" and rest: "list_all (\<lambda>tx. \<not> registers_as a tx) txs"
    by simp_all
  from transact_node_frame [OF tx, of s] Cons.IH [OF rest, of "transact s tx"]
  show ?case by (auto simp: run_Cons)
qed

text \<open>
  C8, as amended. Under every sequence of calls in which identity \<open>a\<close> does not call
  \<^verbatim>\<open>registerEnergyNode\<close>, the capacity and location of \<open>a\<close>'s record stay as they are, and
  a record that is inactive (deactivated by the owner or by health expiry) stays as it
  is in every field, \<open>totalVotesCast\<close> included: records are never deleted. While the
  record is active, a registration by \<open>a\<close> is rejected, so the capacity of an active
  node is immutable.
\<close>

theorem record_kept_until_registration:
  "list_all (\<lambda>tx. \<not> registers_as a tx) txs \<Longrightarrow>
     capacity (energyNodes (run s txs) a) = capacity (energyNodes s a) \<and>
     location (energyNodes (run s txs) a) = location (energyNodes s a) \<and>
     (\<not> isActive (energyNodes s a) \<longrightarrow> energyNodes (run s txs) a = energyNodes s a) \<and>
     (isActive (energyNodes s a) \<longrightarrow>
        registerEnergyNode (sent_by a t) loc cap s = Failure (Revert ''Node already registered'') s)"
  using run_node_frame [of a txs s]
  by (simp add: registerEnergyNode_def require_def sent_by_def)

lemma left_grid_node:
  "energyNodes left_grid 10 =
     \<lparr>nodeAddress = 10, location = ''north'', capacity = 40, isActive = False,
      lastHeartbeat = 1000, votingPower = 40, totalVotesCast = 1\<rparr>"
  by (simp add: left_grid_def scenario_defs call_defs)

theorem record_kept_until_registration_witness:
  "energyNodes (run left_grid [(sent_by 11 3000, Heartbeat), (sent_by 11 3000, VoteOnCommand 1 True),
       (sent_by 11 4000, RegisterEnergyNode ''east'' 70), (sent_by 7 5000, CheckNodeHealth 10)]) 10
     = \<lparr>nodeAddress = 10, location = ''north'', capacity = 40, isActive = False,
        lastHeartbeat = 1000, votingPower = 40, totalVotesCast = 1\<rparr>"
  using record_kept_until_registration [of 10 "[(sent_by 11 3000, Heartbeat),
       (sent_by 11 3000, VoteOnCommand 1 True),
       (sent_by 11 4000, RegisterEnergyNode ''east'' 70), (sent_by 7 5000, CheckNodeHealth 10)]"
       left_grid]
  by (simp add: left_grid_node sent_by_def)

text \<open>The claim as stated covers every subsequent sequence of calls. It fails when the
  deactivated identity registers again: the guard of \<^verbatim>\<open>registerEnergyNode\<close> only rejects
  an active sender, and the new record replaces location and capacity and resets
  \<open>totalVotesCast\<close>.\<close>

theorem reregistration_overwrites_record:
  "\<not> isActive (energyNodes left_grid 10) \<and>
   location (energyNodes left_grid 10) = ''north'' \<and>
   capacity (energyNodes left_grid 10) = 40 \<and>
   totalVotesCast (energyNodes left_grid 10) = 1 \<and>
   location (energyNodes (run left_grid [(sent_by 10 3000, RegisterEnergyNode ''south'' 50)]) 10)
     = ''south'' \<and>
   capacity (energyNodes (run left_grid [(sent_by 10 3000, RegisterEnergyNode ''south'' 50)]) 10)
     = 50 \<and>
   totalVotesCast (energyNodes (run left_grid [(sent_by 10 3000, RegisterEnergyNode ''south'' 50)]) 10)
     = 0"
  by (simp add: left_grid_def scenario_defs call_defs)

section \<open>Failed calls\<close>

text \<open>
  C9. Whenever a call fails, the transaction leaves the storage (node records,
  aggregate, commands, vote records, counters, event log) exactly as before the call.
  For the named errors, the \<^verbatim>\<open>require\<close> failures, even the storage at the moment of
  failure is the storage before the call: every \<^verbatim>\<open>require\<close> that can fail comes before
  the first write.
\<close>

theorem failed_call_leaves_storage:
  "dispatch e c s = Failure err s' \<Longrightarrow>
     transact s (e, c) = s \<and> (\<forall>msg. err = Revert msg \<longrightarrow> s' = s)"
  by (auto simp: transact_def dest: dispatch_Revert)

theorem failed_call_leaves_storage_witness:
  "dispatch (sent_by 11 1000) (RegisterEnergyNode ''south'' 5) scenario
     = Failure (Revert ''Node already registered'') scenario \<and>
   transact scenario (sent_by 11 1000, RegisterEnergyNode ''south'' 5) = scenario \<and>
   dispatch (sent_by 7 1000) (RegisterEnergyNode ''west'' 0) scenario
     = Failure (Revert ''Capacity must be greater than 0'') scenario \<and>
   transact scenario (sent_by 7 1000, RegisterEnergyNode ''west'' 0) = scenario \<and>
   dispatch (sent_by 7 1000) Heartbeat scenario
     = Failure (Revert ''Node not active or registered'') scenario \<and>
   transact scenario (sent_by 7 1000, Heartbeat) = scenario \<and>
   dispatch (sent_by 1 1000) (DeactivateNode 7) scenario
     = Failure (Revert ''Node not active'') scenario \<and>
   transact scenario (sent_by 1 1000, DeactivateNode 7) = scenario \<and>
   dispatch (sent_by 7 1000) (CheckNodeHealth 7) scenario
     = Failure (Revert ''Node not active'') scenario \<and>
   transact scenario (sent_by 7 1000, CheckNodeHealth 7) = scenario \<and>
   dispatch (sent_by 1 1000) (ProposeCommand [] ''EU'' [1]) scenario
     = Failure (Revert ''Command cannot be empty'') scenario \<and>
   transact scenario (sent_by 1 1000, ProposeCommand [] ''EU'' [1]) = scenario \<and>
   dispatch (sent_by 10 1000) (VoteOnCommand 2 True) scenario
     = Failure (Revert ''Command does not exist'') scenario \<and>
   transact scenario (sent_by 10 1000, VoteOnCommand 2 True) = scenario \<and>
   dispatch (sent_by 7 1000) (ExecuteCommand 1) scenario
     = Failure (Revert ''Voting period not ended'') scenario \<and>
   transact scenario (sent_by 7 1000, ExecuteCommand 1) = scenario \<and>
   dispatch (sent_by 7 700000) (ExecuteCommand 1) scenario
     = Failure (Revert ''No votes cast'') scenario \<and>
   transact scenario (sent_by 7 700000, ExecuteCommand 1) = scenario"
proof -
  have f: "dispatch (sent_by 11 1000) (RegisterEnergyNode ''south'' 5) scenario
     = Failure (Revert ''Node already registered'') scenario"
    "dispatch (sent_by 7 1000) (RegisterEnergyNode ''west'' 0) scenario
     = Failure (Revert ''Capacity must be greater than 0'') scenario"
    "dispatch (sent_by 7 1000) Heartbeat scenario
     = Failure (Revert ''Node not active or registered'') scenario"
    "dispatch (sent_by 1 1000) (DeactivateNode 7) scenario
     = Failure (Revert ''Node not active'') scenario"
    "dispatch (sent_by 7 1000) (CheckNodeHealth 7) scenario
     = Failure (Revert ''Node not active'') scenario"
    "dispatch (sent_by 1 1000) (ProposeCommand [] ''EU'' [1]) scenario
     = Failure (Revert ''Command cannot be empty'') scenario"
    "dispatch (sent_by 10 1000) (VoteOnCommand 2 True) scenario
     = Failure (Revert ''Command does not exist'') scenario"
    "dispatch (sent_by 7 1000) (ExecuteCommand 1) scenario
     = Failure (Revert ''Voting period not ended'') scenario"
    "dispatch (sent_by 7 700000) (ExecuteCommand 1) scenario
     = Failure (Revert ''No votes cast'') scenario"
    by (simp_all add: scenario_defs call_defs word_le_nat_alt)
  from f failed_call_leaves_storage [OF f(1)] failed_call_leaves_storage [OF f(2)]
    failed_call_leaves_storage [OF f(3)] failed_call_leaves_storage [OF f(4)]
    failed_call_leaves_storage [OF f(5)] failed_call_leaves_storage [OF f(6)]
    failed_call_leaves_storage [OF f(7)] failed_call_leaves_storage [OF f(8)]
    failed_call_leaves_storage [OF f(9)]
  show ?thesis by simp
qed

text \<open>The rollback matters for panics. Node 11 holds the largest capacity; when node
  10 registers, the record is written before the addition to the aggregate overflows.
  The call fails with the record in storage, and the transaction discards it.\<close>

lemma panic_is_rolled_back:
  "failed_with (dispatch (sent_by 10 1000) (RegisterEnergyNode ''north'' 1)
      (run (constructor 1) [(sent_by 11 1000, RegisterEnergyNode ''south''
        115792089237316195423570985008687907853269984665640564039457584007913129639935)])) = Some Panic \<and>
   isActive (energyNodes (storage_of (dispatch (sent_by 10 1000) (RegisterEnergyNode ''north'' 1)
      (run (constructor 1) [(sent_by 11 1000, RegisterEnergyNode ''south''
        115792089237316195423570985008687907853269984665640564039457584007913129639935)]))) 10) \<and>
   \<not> isActive (energyNodes (transact
      (run (constructor 1) [(sent_by 11 1000, RegisterEnergyNode ''south''
        115792089237316195423570985008687907853269984665640564039457584007913129639935)])
      (sent_by 10 1000, RegisterEnergyNode ''north'' 1)) 10)"
  by (simp add: scenario_defs call_defs)

section \<open>Deactivation and the proposals\<close>

lemma deactivation_frame:
  assumes "c = DeactivateNode a \<or> c = CheckNodeHealth a"
  shows "transact s (e, c) = s \<or> isActive (energyNodes s a) \<and>
           unat (capacity (energyNodes s a)) \<le> unat (totalActiveCapacity s) \<and>
           transact s (e, c) = deactivated a s"
proof -
  consider "transact s (e, c) = s" | r where "dispatch e c s = Success r (transact s (e, c))"
    using transact_cases by blast
  then show ?thesis
  proof cases
    case 1
    then show ?thesis by simp
  next
    case 2
    from assms show ?thesis
    proof
      assume "c = DeactivateNode a"
      with 2 deactivateNode_effect [of e a s r "transact s (e, c)"] show ?thesis by simp
    next
      assume "c = CheckNodeHealth a"
      with 2 checkNodeHealth_effect [of e a s r "transact s (e, c)"] show ?thesis
        by (auto split: if_splits)
    qed
  qed
qed

text \<open>
  C10. A \<^verbatim>\<open>deactivateNode\<close> or \<^verbatim>\<open>checkNodeHealth\<close> transaction on node \<open>a\<close> leaves every
  command (\<open>votesFor\<close>, \<open>votesAgainst\<close>, \<open>executed\<close> and the rest), every vote record and
  the command counter unchanged; of the node records only the \<open>isActive\<close> flag of \<open>a\<close>
  can change; and when the storage changes at all, \<open>a\<close> is inactive afterwards and
  \<open>totalActiveCapacity\<close> has dropped by \<open>a\<close>'s capacity.
\<close>

theorem deactivation_keeps_proposals:
  "c = DeactivateNode a \<or> c = CheckNodeHealth a \<Longrightarrow>
     commands (transact s (e, c)) = commands s \<and>
     hasVoted (transact s (e, c)) = hasVoted s \<and>
     commandCount (transact s (e, c)) = commandCount s \<and>
     authorizedProposers (transact s (e, c)) = authorizedProposers s \<and>
     owner (transact s (e, c)) = owner s \<and>
     energyNodes (transact s (e, c)) =
       (energyNodes s)(a := (energyNodes s a)\<lparr>isActive := isActive (energyNodes (transact s (e, c)) a)\<rparr>) \<and>
     (transact s (e, c) = s \<or>
      \<not> isActive (energyNodes (transact s (e, c)) a) \<and>
      unat (totalActiveCapacity (transact s (e, c))) + unat (capacity (energyNodes s a))
        = unat (totalActiveCapacity s))"
  using deactivation_frame [of c a s e]
  by (auto simp: deactivated_def unat_sub word_le_nat_alt)

theorem deactivation_keeps_proposals_witness:
  "votesAgainst (commands (transact voted_against (sent_by 1 2000, DeactivateNode 10)) 1) = 40 \<and>
   votesFor (commands (transact voted_against (sent_by 1 2000, DeactivateNode 10)) 1) = 0 \<and>
   hasVoted (transact voted_against (sent_by 1 2000, DeactivateNode 10)) 1 10 \<and>
   \<not> executed (commands (transact voted_against (sent_by 1 2000, DeactivateNode 10)) 1) \<and>
   \<not> isActive (energyNodes (transact voted_against (sent_by 1 2000, DeactivateNode 10)) 10) \<and>
   totalActiveCapacity voted_against = 100 \<and>
   totalActiveCapacity (transact voted_against (sent_by 1 2000, DeactivateNode 10)) = 60"
proof -
  have before: "votesAgainst (commands voted_against 1) = 40"
    "votesFor (commands voted_against 1) = 0" "hasVoted voted_against 1 10"
    "\<not> executed (commands voted_against 1)" "totalActiveCapacity voted_against = 100"
    by (simp_all add: voted_against_def scenario_defs call_defs)
  have after: "\<not> isActive (energyNodes (transact voted_against (sent_by 1 2000, DeactivateNode 10)) 10)"
    "totalActiveCapacity (transact voted_against (sent_by 1 2000, DeactivateNode 10)) = 60"
    by (simp_all add: voted_against_def scenario_defs call_defs)
  from deactivation_keeps_proposals [of "DeactivateNode 10" 10 voted_against "sent_by 1 2000"]
  have "commands (transact voted_against (sent_by 1 2000, DeactivateNode 10)) = commands voted_against"
    "hasVoted (transact voted_against (sent_by 1 2000, DeactivateNode 10)) = hasVoted voted_against"
    by simp_all
  with before after show ?thesis by simp
qed

section \<open>One vote per voter and proposal\<close>

lemma hasVoted_step: "hasVoted s p a \<Longrightarrow> hasVoted (transact s tx) p a"
  by (rule step_invariant [where P = "\<lambda>s. hasVoted s p a" and s = s])
     (auto simp: registered_def deactivated_def beat_def proposed_def tallied_def
        marked_executed_def Let_def)

lemma hasVoted_run: "hasVoted s p a \<Longrightarrow> hasVoted (run s txs) p a"
  by (rule run_invariant [where P = "\<lambda>s. hasVoted s p a"]) (simp_all add: hasVoted_step)

lemma voteOnCommand_repeated:
  "hasVoted s p (msg_sender e) \<Longrightarrow>
     failed_with (voteOnCommand e p support s) \<noteq> None \<and>
     storage_of (voteOnCommand e p support s) = s"
  by (simp add: voteOnCommand_def guard_def require_def split: option.splits)

lemma votes_recorded_run: "votes_recorded (run (constructor d) txs)"
  by (rule run_invariant) (simp_all add: log_invariants_constructor votes_recorded_step)

lemma tallies_recorded_run: "tallies_recorded (run (constructor d) txs)"
  by (rule run_invariant) (simp_all add: log_invariants_constructor tallies_recorded_step)

lemma voteOnCommand_repeated_error:
  assumes "hasVoted s p (msg_sender e)"
  shows "voteOnCommand e p support s = Failure (repeated_vote_error e p s) s"
proof -
  have bound: "unat (block_timestamp e) < 2 ^ 256"
    using unsigned_less [of "block_timestamp e"] by simp
  show ?thesis
    using assms bound
    by (auto simp: voteOnCommand_def guard_def require_def onlyActiveNode_def
                   commandExists_def votingOpen_def checked_add_def VOTING_PERIOD_def
                   repeated_vote_error_def Let_def word_le_nat_alt unat_word_ariths)
qed

lemma windows_fit_step:
  assumes "windows_fit s"
  shows "windows_fit (transact s tx)"
proof (rule step_invariant [where P = windows_fit and s = s])
  show "windows_fit s" by (rule assms)
next
  fix e :: env and loc and cap :: uint256
  show "windows_fit (registered e loc cap s)"
    using assms by (simp add: windows_fit_def registered_def)
next
  fix a
  show "windows_fit (deactivated a s)"
    using assms by (simp add: windows_fit_def deactivated_def)
next
  fix e :: env
  show "windows_fit (beat e s)"
    using assms by (simp add: windows_fit_def beat_def)
next
  fix e :: env and c rg p
  assume "unat (block_timestamp e) + 604800 < 2 ^ 256"
  then show "windows_fit (proposed e c rg p s)"
    using assms by (simp add: windows_fit_def proposed_def Let_def)
next
  fix e :: env and cid support
  show t: "windows_fit (tallied e cid support s)"
    using assms by (simp add: windows_fit_def tallied_def Let_def)
  then show "windows_fit (marked_executed cid (tallied e cid support s))"
    by (simp add: windows_fit_def marked_executed_def Let_def)
next
  fix cid
  show "windows_fit (marked_executed cid s)"
    using assms by (simp add: windows_fit_def marked_executed_def Let_def)
qed

lemma windows_fit_constructor: "windows_fit (constructor d)"
  by (simp add: windows_fit_def constructor_def zero_command_def)

lemma windows_fit_run: "windows_fit (run (constructor d) txs)"
  by (rule run_invariant [where P = windows_fit])
     (simp_all add: windows_fit_step windows_fit_constructor)

text \<open>
  C2, as amended. In every storage reached from the constructor, the log holds one
  \<open>CommandVoted\<close> event of voter \<open>a\<close> on proposal \<open>p\<close> when \<open>hasVoted[p][a]\<close> is set and
  none otherwise, and \<open>votesFor\<close> and \<open>votesAgainst\<close> of \<open>p\<close> are the sums of the weights
  of the logged votes on their side: a voter's weight is in at most one tally, at most
  once. After a successful vote, every later vote of the same sender on the same
  proposal fails and leaves the storage as it is, whatever calls come in between. It
  fails with the error of the first check that does not pass, in the order of the
  source: "Node not active or registered", "Command does not exist", "Voting period
  ended", "Command already executed", and "Already voted" when all the checks before
  the vote record pass. In a storage that no sequence of calls reaches, the addition
  of the voting period to the proposal's timestamp can overflow, and the vote then
  fails with a panic; in every storage reached from the constructor it does not.
\<close>

theorem vote_counted_once:
  "votes_logged p a (events_log (run (constructor d) txs))
      = (if hasVoted (run (constructor d) txs) p a then 1 else 0) \<and>
   unat (votesFor (commands (run (constructor d) txs) p))
      = weight_logged p True (events_log (run (constructor d) txs)) \<and>
   unat (votesAgainst (commands (run (constructor d) txs) p))
      = weight_logged p False (events_log (run (constructor d) txs)) \<and>
   (voteOnCommand e p support s = Success r s' \<longrightarrow>
      \<not> hasVoted s p (msg_sender e) \<and> hasVoted s' p (msg_sender e) \<and>
      (\<forall>later e' support'. msg_sender e' = msg_sender e \<longrightarrow>
         failed_with (voteOnCommand e' p support' (run s' later)) \<noteq> None \<and>
         storage_of (voteOnCommand e' p support' (run s' later)) = run s' later \<and>
         voteOnCommand e' p support' (run s' later)
           = Failure (repeated_vote_error e' p (run s' later)) (run s' later))) \<and>
   (hasVoted s p (msg_sender e) \<and> onlyActiveNode e s = None \<and> commandExists p s = None \<and>
    votingOpen e p s = None \<longrightarrow>
      voteOnCommand e p support s = Failure (Revert ''Already voted'') s) \<and>
   (hasVoted s p (msg_sender e) \<longrightarrow>
      voteOnCommand e p support s =
        Failure
          (if \<not> isActive (energyNodes s (msg_sender e))
             then Revert ''Node not active or registered''
           else if \<not> (0 < p \<and> p \<le> commandCount s) then Revert ''Command does not exist''
           else if \<not> unat (timestamp (commands s p)) + 604800 < 2 ^ 256 then Panic
           else if unat (timestamp (commands s p)) + 604800 < unat (block_timestamp e)
             then Revert ''Voting period ended''
           else if executed (commands s p) then Revert ''Command already executed''
           else Revert ''Already voted'') s) \<and>
   (hasVoted (run (constructor d) txs) p (msg_sender e) \<longrightarrow>
      voteOnCommand e p support (run (constructor d) txs) =
        Failure
          (if \<not> isActive (energyNodes (run (constructor d) txs) (msg_sender e))
             then Revert ''Node not active or registered''
           else if \<not> (0 < p \<and> p \<le> commandCount (run (constructor d) txs))
             then Revert ''Command does not exist''
           else if unat (timestamp (commands (run (constructor d) txs) p)) + 604800
                     < unat (block_timestamp e)
             then Revert ''Voting period ended''
           else if executed (commands (run (constructor d) txs) p)
             then Revert ''Command already executed''
           else Revert ''Already voted'') (run (constructor d) txs))"
proof -
  have log: "votes_logged p a (events_log (run (constructor d) txs))
      = (if hasVoted (run (constructor d) txs) p a then 1 else 0)"
    using votes_recorded_run [of d txs] by (simp add: votes_recorded_def)
  have tally: "unat (votesFor (commands (run (constructor d) txs) p))
      = weight_logged p True (events_log (run (constructor d) txs))"
    "unat (votesAgainst (commands (run (constructor d) txs) p))
      = weight_logged p False (events_log (run (constructor d) txs))"
    using tallies_recorded_run [of d txs] by (simp_all add: tallies_recorded_def)
  have once: "\<not> hasVoted s p (msg_sender e) \<and> hasVoted s' p (msg_sender e) \<and>
      (\<forall>later e' support'. msg_sender e' = msg_sender e \<longrightarrow>
         failed_with (voteOnCommand e' p support' (run s' later)) \<noteq> None \<and>
         storage_of (voteOnCommand e' p support' (run s' later)) = run s' later \<and>
         voteOnCommand e' p support' (run s' later)
           = Failure (repeated_vote_error e' p (run s' later)) (run s' later))"
    if ok: "voteOnCommand e p support s = Success r s'"
  proof -
    from voteOnCommand_effect [OF ok] have nv: "\<not> hasVoted s p (msg_sender e)"
      and voted: "hasVoted s' p (msg_sender e)"
      by (auto simp: tallied_def marked_executed_def Let_def)
    have "failed_with (voteOnCommand e' p support' (run s' later)) \<noteq> None \<and>
          storage_of (voteOnCommand e' p support' (run s' later)) = run s' later \<and>
          voteOnCommand e' p support' (run s' later)
            = Failure (repeated_vote_error e' p (run s' later)) (run s' later)"
      if "msg_sender e' = msg_sender e" for later and e' :: env and support'
      using voteOnCommand_repeated [of "run s' later" p e' support']
        voteOnCommand_repeated_error [of "run s' later" p e' support']
        hasVoted_run [OF voted, of later] that by simp
    with nv voted show ?thesis by blast
  qed
  have named: "voteOnCommand e p support s = Failure (Revert ''Already voted'') s"
    if "hasVoted s p (msg_sender e)" "onlyActiveNode e s = None" "commandExists p s = None"
      "votingOpen e p s = None"
    using that by (simp add: voteOnCommand_def guard_def require_def)
  have first: "voteOnCommand e p support s =
        Failure
          (if \<not> isActive (energyNodes s (msg_sender e))
             then Revert ''Node not active or registered''
           else if \<not> (0 < p \<and> p \<le> commandCount s) then Revert ''Command does not exist''
           else if \<not> unat (timestamp (commands s p)) + 604800 < 2 ^ 256 then Panic
           else if unat (timestamp (commands s p)) + 604800 < unat (block_timestamp e)
             then Revert ''Voting period ended''
           else if executed (commands s p) then Revert ''Command already executed''
           else Revert ''Already voted'') s"
    if "hasVoted s p (msg_sender e)"
    using voteOnCommand_repeated_error [OF that, of support]
    by (simp only: repeated_vote_error_def)
  have fit: "unat (timestamp (commands (run (constructor d) txs) p)) + 604800 < 2 ^ 256"
    using windows_fit_run [of d txs] by (simp add: windows_fit_def)
  have reached: "voteOnCommand e p support (run (constructor d) txs) =
        Failure
          (if \<not> isActive (energyNodes (run (constructor d) txs) (msg_sender e))
             then Revert ''Node not active or registered''
           else if \<not> (0 < p \<and> p \<le> commandCount (run (constructor d) txs))
             then Revert ''Command does not exist''
           else if unat (timestamp (commands (run (constructor d) txs) p)) + 604800
                     < unat (block_timestamp e)
             then Revert ''Voting period ended''
           else if executed (commands (run (constructor d) txs) p)
             then Revert ''Command already executed''
           else Revert ''Already voted'') (run (constructor d) txs)"
    if "hasVoted (run (constructor d) txs) p (msg_sender e)"
    using voteOnCommand_repeated_error [OF that, of support] fit
    by (simp add: repeated_vote_error_def)
  from log tally once named first reached show ?thesis by blast
qed

theorem vote_counted_once_witness:
  "votes_logged 1 10 (events_log voted_against) = 1 \<and>
   votes_logged 1 11 (events_log voted_against) = 0 \<and>
   weight_logged 1 False (events_log voted_against) = 40 \<and>
   weight_logged 1 True (events_log voted_against) = 0 \<and>
   voteOnCommand (sent_by 10 1500) 1 True voted_against
     = Failure (Revert ''Already voted'') voted_against \<and>
   failed_with (voteOnCommand (sent_by 10 9000) 1 True
      (run voted_against [(sent_by 11 1200, Heartbeat), (sent_by 1 1300, DeactivateNode 10),
                          (sent_by 10 1400, RegisterEnergyNode ''north'' 45)])) \<noteq> None \<and>
   failed_with (voteOnCommand (sent_by 10 9000) 1 True
      (run voted_against [(sent_by 11 1200, Heartbeat), (sent_by 1 1300, DeactivateNode 10),
                          (sent_by 10 1400, RegisterEnergyNode ''north'' 45)]))
     = Some (Revert ''Already voted'') \<and>
   voteOnCommand (sent_by 10 700000) 1 True voted_against
     = Failure (Revert ''Voting period ended'') voted_against \<and>
   voteOnCommand (sent_by 10 1000) 1 True voted_for
     = Failure (Revert ''Command already executed'') voted_for \<and>
   voteOnCommand (sent_by 10 2000) 1 False left_grid
     = Failure (Revert ''Node not active or registered'') left_grid"
proof -
  have reach: "run (constructor 1) (first_calls @ [(sent_by 10 1000, VoteOnCommand 1 False)])
                 = voted_against"
    by (simp add: run_append voted_against_def scenario_def)
  have reach_for: "run (constructor 1) (first_calls @ [(sent_by 10 1000, VoteOnCommand 1 True)])
                 = voted_for"
    by (simp add: run_append voted_for_def scenario_def)
  have reach_left: "run (constructor 1) (first_calls @ [(sent_by 10 1000, VoteOnCommand 1 False),
                      (sent_by 1 2000, DeactivateNode 10)]) = left_grid"
    by (simp add: run_append run_Cons run_Nil left_grid_def voted_against_def scenario_def)
  have cast: "voteOnCommand (sent_by 10 1000) 1 False scenario = Success RVoid voted_against"
    by (simp add: scenario_defs call_defs)
  have facts: "hasVoted voted_against 1 10" "\<not> hasVoted voted_against 1 11"
    "votesAgainst (commands voted_against 1) = 40" "votesFor (commands voted_against 1) = 0"
    "onlyActiveNode (sent_by 10 1500) voted_against = None"
    "commandExists 1 voted_against = None"
    "votingOpen (sent_by 10 1500) 1 voted_against = None"
    "isActive (energyNodes voted_against 10)" "commandCount voted_against = 1"
    "timestamp (commands voted_against 1) = 1000"
    by (simp_all add: scenario_defs call_defs)
  have facts_for: "hasVoted voted_for 1 10" "isActive (energyNodes voted_for 10)"
    "commandCount voted_for = 1" "timestamp (commands voted_for 1) = 1000"
    "executed (commands voted_for 1)"
    by (simp_all add: scenario_defs call_defs)
  have facts_left: "hasVoted left_grid 1 10" "\<not> isActive (energyNodes left_grid 10)"
    by (simp_all add: scenario_defs call_defs)
  have later: "isActive (energyNodes (run voted_against [(sent_by 11 1200, Heartbeat),
        (sent_by 1 1300, DeactivateNode 10), (sent_by 10 1400, RegisterEnergyNode ''north'' 45)]) 10)"
    "commandCount (run voted_against [(sent_by 11 1200, Heartbeat),
        (sent_by 1 1300, DeactivateNode 10), (sent_by 10 1400, RegisterEnergyNode ''north'' 45)]) = 1"
    "timestamp (commands (run voted_against [(sent_by 11 1200, Heartbeat),
        (sent_by 1 1300, DeactivateNode 10), (sent_by 10 1400, RegisterEnergyNode ''north'' 45)]) 1)
       = 1000"
    "\<not> executed (commands (run voted_against [(sent_by 11 1200, Heartbeat),
        (sent_by 1 1300, DeactivateNode 10), (sent_by 10 1400, RegisterEnergyNode ''north'' 45)]) 1)"
    by (simp_all add: scenario_defs call_defs)
  note V = vote_counted_once [where d = 1 and p = 1 and a = 10
      and e = "sent_by 10 1500" and support = True and s = voted_against
      and txs = "first_calls @ [(sent_by 10 1000, VoteOnCommand 1 False)]", unfolded reach]
  note count = V [THEN conjunct1]
  note tally_for = V [THEN conjunct2, THEN conjunct1]
  note tally_against = V [THEN conjunct2, THEN conjunct2, THEN conjunct1]
  note named = V [THEN conjunct2, THEN conjunct2, THEN conjunct2, THEN conjunct2, THEN conjunct1]
  note count_other = vote_counted_once [where d = 1 and p = 1 and a = 11
      and txs = "first_calls @ [(sent_by 10 1000, VoteOnCommand 1 False)]", unfolded reach,
      THEN conjunct1]
  note after = vote_counted_once [where p = 1
      and e = "sent_by 10 1000" and support = False and s = scenario and r = RVoid
      and s' = voted_against,
      THEN conjunct2, THEN conjunct2, THEN conjunct2, THEN conjunct1]
  note reached = vote_counted_once [where d = 1 and p = 1
      and e = "sent_by 10 700000" and support = True
      and txs = "first_calls @ [(sent_by 10 1000, VoteOnCommand 1 False)]", unfolded reach,
      THEN conjunct2, THEN conjunct2, THEN conjunct2, THEN conjunct2, THEN conjunct2,
      THEN conjunct2]
  have a1: "votes_logged 1 10 (events_log voted_against) = 1"
    using count facts(1) by simp
  have a2: "weight_logged 1 False (events_log voted_against) = 40"
    using tally_against facts(3) by simp
  have a3: "weight_logged 1 True (events_log voted_against) = 0"
    using tally_for facts(4) by simp
  have a4: "voteOnCommand (sent_by 10 1500) 1 True voted_against
       = Failure (Revert ''Already voted'') voted_against"
    using named facts(1,5,6,7)
    by (simp add: sent_by_def)
  have b: "votes_logged 1 11 (events_log voted_against) = 0"
    using count_other facts(2) by simp
  from after cast
  have later_vote: "failed_with (voteOnCommand (sent_by 10 9000) 1 True
      (run voted_against [(sent_by 11 1200, Heartbeat), (sent_by 1 1300, DeactivateNode 10),
                          (sent_by 10 1400, RegisterEnergyNode ''north'' 45)])) \<noteq> None \<and>
     voteOnCommand (sent_by 10 9000) 1 True
      (run voted_against [(sent_by 11 1200, Heartbeat), (sent_by 1 1300, DeactivateNode 10),
                          (sent_by 10 1400, RegisterEnergyNode ''north'' 45)])
       = Failure (repeated_vote_error (sent_by 10 9000) 1
           (run voted_against [(sent_by 11 1200, Heartbeat), (sent_by 1 1300, DeactivateNode 10),
                          (sent_by 10 1400, RegisterEnergyNode ''north'' 45)]))
           (run voted_against [(sent_by 11 1200, Heartbeat), (sent_by 1 1300, DeactivateNode 10),
                          (sent_by 10 1400, RegisterEnergyNode ''north'' 45)])"
    by (simp add: sent_by_def)
  have err: "repeated_vote_error (sent_by 10 9000) 1
           (run voted_against [(sent_by 11 1200, Heartbeat), (sent_by 1 1300, DeactivateNode 10),
                          (sent_by 10 1400, RegisterEnergyNode ''north'' 45)])
          = Revert ''Already voted''"
    using later by (simp add: repeated_vote_error_def sent_by_def)
  from later_vote have c: "failed_with (voteOnCommand (sent_by 10 9000) 1 True
      (run voted_against [(sent_by 11 1200, Heartbeat), (sent_by 1 1300, DeactivateNode 10),
                          (sent_by 10 1400, RegisterEnergyNode ''north'' 45)])) \<noteq> None"
    and c'': "failed_with (voteOnCommand (sent_by 10 9000) 1 True
      (run voted_against [(sent_by 11 1200, Heartbeat), (sent_by 1 1300, DeactivateNode 10),
                          (sent_by 10 1400, RegisterEnergyNode ''north'' 45)]))
     = Some (Revert ''Already voted'')"
    by (simp_all add: err)
  have d: "voteOnCommand (sent_by 10 700000) 1 True voted_against
     = Failure (Revert ''Voting period ended'') voted_against"
    using reached facts(1,8,9,10)
    by (simp add: sent_by_def)
  have e: "voteOnCommand (sent_by 10 1000) 1 True voted_for
     = Failure (Revert ''Command already executed'') voted_for"
    using vote_counted_once [where d = 1 and p = 1 and e = "sent_by 10 1000"
      and support = True
      and txs = "first_calls @ [(sent_by 10 1000, VoteOnCommand 1 True)]", unfolded reach_for,
      THEN conjunct2, THEN conjunct2, THEN conjunct2, THEN conjunct2, THEN conjunct2,
      THEN conjunct2] facts_for
    by (simp add: sent_by_def)
  have f: "voteOnCommand (sent_by 10 2000) 1 False left_grid
     = Failure (Revert ''Node not active or registered'') left_grid"
    using vote_counted_once [where d = 1 and p = 1 and e = "sent_by 10 2000"
      and support = False
      and txs = "first_calls @ [(sent_by 10 1000, VoteOnCommand 1 False),
                      (sent_by 1 2000, DeactivateNode 10)]", unfolded reach_left,
      THEN conjunct2, THEN conjunct2, THEN conjunct2, THEN conjunct2, THEN conjunct2,
      THEN conjunct2] facts_left
    by (simp add: sent_by_def)
  from a1 a2 a3 a4 b c c'' d e f show ?thesis by simp
qed

text \<open>The claim as stated names the error of every second vote: AlreadyVoted. The
  modifiers run first. After node 10's vote has executed command 1, its second vote
  fails with "Command already executed"; after node 10 has voted and been deactivated,
  its second vote fails with "Node not active or registered".\<close>

theorem second_vote_fails_before_AlreadyVoted:
  "voteOnCommand (sent_by 10 1000) 1 True scenario = Success RVoid voted_for \<and>
   hasVoted voted_for 1 10 \<and>
   voteOnCommand (sent_by 10 1000) 1 True voted_for
     = Failure (Revert ''Command already executed'') voted_for \<and>
   hasVoted left_grid 1 10 \<and>
   voteOnCommand (sent_by 10 2000) 1 False left_grid
     = Failure (Revert ''Node not active or registered'') left_grid"
  by (simp add: scenario_defs call_defs)

section \<open>Execution happens once\<close>

lemma executed_step: "executed (commands s p) \<Longrightarrow> executed (commands (transact s tx) p)"
  by (rule step_invariant [where P = "\<lambda>s. executed (commands s p)" and s = s])
     (auto simp: registered_def deactivated_def beat_def proposed_def tallied_def
        marked_executed_def Let_def)

lemma executed_run: "executed (commands s p) \<Longrightarrow> executed (commands (run s txs) p)"
  by (rule run_invariant [where P = "\<lambda>s. executed (commands s p)"])
     (simp_all add: executed_step)

lemma voteOnCommand_executed:
  "executed (commands s p) \<Longrightarrow>
     failed_with (voteOnCommand e p support s) \<noteq> None \<and>
     storage_of (voteOnCommand e p support s) = s"
  by (auto simp: voteOnCommand_def guard_def require_def dest: votingOpen_None
           split: option.splits)

lemma executeCommand_executed:
  "executed (commands s p) \<Longrightarrow>
     failed_with (executeCommand e p s) \<noteq> None \<and> storage_of (executeCommand e p s) = s"
  by (simp add: executeCommand_def guard_def require_def Let_def split: option.splits)

lemma executions_recorded_run: "executions_recorded (run (constructor d) txs)"
  by (rule run_invariant) (simp_all add: log_invariants_constructor executions_recorded_step)

text \<open>
  C3. In every storage reached from the constructor, the log holds exactly one
  \<open>CommandExecuted\<close> event and one \<open>PhotonicSignalEmitted\<close> event of a proposal whose
  \<open>executed\<close> flag is set, and none of a proposal whose flag is not set: the execution
  effect is performed once, by whichever path. Once the flag is set it stays set under
  every sequence of calls; \<^verbatim>\<open>_executeCommand\<close> rejects the proposal, and so do the two
  entry points that lead to it, \<^verbatim>\<open>executeCommand\<close> and \<^verbatim>\<open>voteOnCommand\<close>, leaving the
  storage as it is.
\<close>

theorem executed_flag_is_final:
  "executions_logged p (events_log (run (constructor d) txs))
      = (if executed (commands (run (constructor d) txs) p) then 1 else 0) \<and>
   signals_logged p (events_log (run (constructor d) txs))
      = (if executed (commands (run (constructor d) txs) p) then 1 else 0) \<and>
   (executed (commands s p) \<longrightarrow>
      executed (commands (run s later) p) \<and>
      executeCommand_internal p s = Failure (Revert ''Command already executed'') s \<and>
      failed_with (executeCommand e p s) \<noteq> None \<and> storage_of (executeCommand e p s) = s \<and>
      failed_with (voteOnCommand e p support s) \<noteq> None \<and>
      storage_of (voteOnCommand e p support s) = s)"
  using executions_recorded_run [of d txs] executed_run [of s p later]
    executeCommand_executed [of s p e] voteOnCommand_executed [of s p e support]
  by (simp add: executions_recorded_def executeCommand_internal_def require_def)

theorem executed_flag_is_final_witness:
  "executed (commands voted_for 1) \<and>
   executions_logged 1 (events_log voted_for) = 1 \<and>
   signals_logged 1 (events_log voted_for) = 1 \<and>
   executions_logged 1 (events_log (run voted_for
      [(sent_by 11 1100, VoteOnCommand 1 True), (sent_by 7 700000, ExecuteCommand 1)])) = 1 \<and>
   executed (commands (run voted_for
      [(sent_by 11 1100, VoteOnCommand 1 True), (sent_by 7 700000, ExecuteCommand 1)]) 1) \<and>
   failed_with (executeCommand (sent_by 7 700000) 1 voted_for) \<noteq> None"
proof -
  have reach: "run (constructor 1) (first_calls @ [(sent_by 10 1000, VoteOnCommand 1 True)])
                 = voted_for"
    by (simp add: run_append voted_for_def scenario_def)
  have reach2: "run (constructor 1) (first_calls @ [(sent_by 10 1000, VoteOnCommand 1 True),
      (sent_by 11 1100, VoteOnCommand 1 True), (sent_by 7 700000, ExecuteCommand 1)])
        = run voted_for [(sent_by 11 1100, VoteOnCommand 1 True), (sent_by 7 700000, ExecuteCommand 1)]"
    by (simp add: run_append run_Cons run_Nil voted_for_def scenario_def)
  have ex: "executed (commands voted_for 1)"
    by (simp add: scenario_defs call_defs)
  from executed_flag_is_final [where d = 1 and p = 1 and s = voted_for
      and txs = "first_calls @ [(sent_by 10 1000, VoteOnCommand 1 True)]"
      and later = "[(sent_by 11 1100, VoteOnCommand 1 True), (sent_by 7 700000, ExecuteCommand 1)]"
      and e = "sent_by 7 700000", unfolded reach] ex
  have a: "executions_logged 1 (events_log voted_for) = 1"
    "signals_logged 1 (events_log voted_for) = 1"
    "executed (commands (run voted_for
      [(sent_by 11 1100, VoteOnCommand 1 True), (sent_by 7 700000, ExecuteCommand 1)]) 1)"
    "failed_with (executeCommand (sent_by 7 700000) 1 voted_for) \<noteq> None"
    by simp_all
  from executed_flag_is_final [where d = 1 and p = 1 and s = voted_for
      and txs = "first_calls @ [(sent_by 10 1000, VoteOnCommand 1 True),
      (sent_by 11 1100, VoteOnCommand 1 True), (sent_by 7 700000, ExecuteCommand 1)]",
      unfolded reach2] a(3)
  have b: "executions_logged 1 (events_log (run voted_for
      [(sent_by 11 1100, VoteOnCommand 1 True), (sent_by 7 700000, ExecuteCommand 1)])) = 1"
    by simp
  from ex a b show ?thesis by simp
qed

section \<open>Execution on the vote that meets both thresholds\<close>

lemma thresholds_marked_executed:
  "quorum_met cid (marked_executed cid s) = quorum_met cid s"
  "approval_met cid (marked_executed cid s) = approval_met cid s"
  by (simp_all add: quorum_met_def approval_met_def marked_executed_def Let_def)

lemma voteOnCommand_thresholds:
  assumes "voteOnCommand e cid support s = Success r s'"
  shows "executed (commands s' cid) = (quorum_met cid s' \<and> approval_met cid s')"
    and "totalActiveCapacity s' = totalActiveCapacity s"
    and "votesFor (commands s' cid) = votesFor (commands (tallied e cid support s) cid)"
    and "votesAgainst (commands s' cid) = votesAgainst (commands (tallied e cid support s) cid)"
proof -
  let ?t = "tallied e cid support s"
  from voteOnCommand_Success [OF assms] have ne: "\<not> executed (commands s cid)"
    and chk: "checkAndExecuteCommand cid ?t = Success r s'"
    by simp_all
  from ne have net: "\<not> executed (commands ?t cid)"
    by (simp add: tallied_def Let_def)
  have tot: "totalActiveCapacity ?t = totalActiveCapacity s"
    by (simp add: tallied_def Let_def)
  show "executed (commands s' cid) = (quorum_met cid s' \<and> approval_met cid s')"
  proof (cases "quorum_met cid ?t \<and> approval_met cid ?t")
    case True
    with checkAndExecuteCommand_Success [OF chk] have "s' = marked_executed cid ?t" by simp
    with True show ?thesis
      by (simp add: thresholds_marked_executed) (simp add: marked_executed_def Let_def)
  next
    case False
    with checkAndExecuteCommand_Success [OF chk] have "s' = ?t" by (simp split: if_splits)
    with False net show ?thesis by simp
  qed
  from checkAndExecuteCommand_Success [OF chk]
  have "s' = ?t \<or> s' = marked_executed cid ?t" by (auto split: if_splits)
  then show "totalActiveCapacity s' = totalActiveCapacity s"
    and "votesFor (commands s' cid) = votesFor (commands ?t cid)"
    and "votesAgainst (commands s' cid) = votesAgainst (commands ?t cid)"
    using tot by (auto simp: marked_executed_def Let_def)
qed

text \<open>
  C4. A successful vote adds the sender's voting power to the side voted for, leaves
  \<open>totalActiveCapacity\<close> as it is, and ends with the command executed exactly when,
  on the tallies after the vote and the current aggregate, quorum
  (\<open>total * 30 div 100 \<le> cast\<close>) and approval (\<open>0 < cast\<close> and
  \<open>60 \<le> votesFor * 100 div cast\<close>) both hold. In the scenario (nodes of capacity 40
  and 60, aggregate 100), the supporting vote of the capacity-40 node alone sets
  \<open>executed\<close>, and the other node's vote is then rejected.
\<close>

theorem vote_executes_at_once:
  "(voteOnCommand e cid support s = Success r s' \<longrightarrow>
      totalActiveCapacity s' = totalActiveCapacity s \<and>
      unat (votesFor (commands s' cid)) = unat (votesFor (commands s cid))
         + (if support then unat (votingPower (energyNodes s (msg_sender e))) else 0) \<and>
      unat (votesAgainst (commands s' cid)) = unat (votesAgainst (commands s cid))
         + (if support then 0 else unat (votingPower (energyNodes s (msg_sender e)))) \<and>
      \<not> executed (commands s cid) \<and>
      executed (commands s' cid) =
        (unat (totalActiveCapacity s') * 30 div 100
           \<le> unat (votesFor (commands s' cid)) + unat (votesAgainst (commands s' cid)) \<and>
         0 < unat (votesFor (commands s' cid)) + unat (votesAgainst (commands s' cid)) \<and>
         60 \<le> unat (votesFor (commands s' cid)) * 100
                 div (unat (votesFor (commands s' cid)) + unat (votesAgainst (commands s' cid))))) \<and>
   capacity (energyNodes scenario 10) = 40 \<and> capacity (energyNodes scenario 11) = 60 \<and>
   totalActiveCapacity scenario = 100 \<and>
   \<not> executed (commands scenario 1) \<and>
   voteOnCommand (sent_by 10 1000) 1 True scenario = Success RVoid voted_for \<and>
   votesFor (commands voted_for 1) = 40 \<and> votesAgainst (commands voted_for 1) = 0 \<and>
   executed (commands voted_for 1) \<and>
   voteOnCommand (sent_by 11 1000) 1 True voted_for
     = Failure (Revert ''Command already executed'') voted_for"
proof -
  have general: "totalActiveCapacity s' = totalActiveCapacity s \<and>
      unat (votesFor (commands s' cid)) = unat (votesFor (commands s cid))
         + (if support then unat (votingPower (energyNodes s (msg_sender e))) else 0) \<and>
      unat (votesAgainst (commands s' cid)) = unat (votesAgainst (commands s cid))
         + (if support then 0 else unat (votingPower (energyNodes s (msg_sender e)))) \<and>
      \<not> executed (commands s cid) \<and>
      executed (commands s' cid) =
        (unat (totalActiveCapacity s') * 30 div 100
           \<le> unat (votesFor (commands s' cid)) + unat (votesAgainst (commands s' cid)) \<and>
         0 < unat (votesFor (commands s' cid)) + unat (votesAgainst (commands s' cid)) \<and>
         60 \<le> unat (votesFor (commands s' cid)) * 100
                 div (unat (votesFor (commands s' cid)) + unat (votesAgainst (commands s' cid))))"
    if ok: "voteOnCommand e cid support s = Success r s'"
  proof -
    note S = voteOnCommand_Success [OF ok]
    note T = voteOnCommand_thresholds [OF ok]
    from S have bound: "unat (if support then votesFor (commands s cid)
                               else votesAgainst (commands s cid))
        + unat (votingPower (energyNodes s (msg_sender e))) < 2 ^ 256"
      and ne: "\<not> executed (commands s cid)" by simp_all
    have vf: "unat (votesFor (commands s' cid)) = unat (votesFor (commands s cid))
         + (if support then unat (votingPower (energyNodes s (msg_sender e))) else 0)"
      using bound by (cases support) (simp_all add: T(3) tallied_def Let_def unat_plus_exact)
    have va: "unat (votesAgainst (commands s' cid)) = unat (votesAgainst (commands s cid))
         + (if support then 0 else unat (votingPower (energyNodes s (msg_sender e))))"
      using bound by (cases support) (simp_all add: T(4) tallied_def Let_def unat_plus_exact)
    from T(1) have "executed (commands s' cid) =
        (unat (totalActiveCapacity s') * 30 div 100
           \<le> unat (votesFor (commands s' cid)) + unat (votesAgainst (commands s' cid)) \<and>
         0 < unat (votesFor (commands s' cid)) + unat (votesAgainst (commands s' cid)) \<and>
         60 \<le> unat (votesFor (commands s' cid)) * 100
                 div (unat (votesFor (commands s' cid)) + unat (votesAgainst (commands s' cid))))"
      by (simp only: quorum_met_def approval_met_def)
    with T(2) vf va ne show ?thesis by blast
  qed
  have concrete: "capacity (energyNodes scenario 10) = 40" "capacity (energyNodes scenario 11) = 60"
    "totalActiveCapacity scenario = 100" "\<not> executed (commands scenario 1)"
    "voteOnCommand (sent_by 10 1000) 1 True scenario = Success RVoid voted_for"
    "votesFor (commands voted_for 1) = 40" "votesAgainst (commands voted_for 1) = 0"
    "executed (commands voted_for 1)"
    "voteOnCommand (sent_by 11 1000) 1 True voted_for
       = Failure (Revert ''Command already executed'') voted_for"
    by (simp_all add: scenario_defs call_defs)
  from general concrete show ?thesis by blast
qed

theorem vote_executes_at_once_witness:
  "executed (commands voted_for 1) =
     (unat (totalActiveCapacity voted_for) * 30 div 100
        \<le> unat (votesFor (commands voted_for 1)) + unat (votesAgainst (commands voted_for 1)) \<and>
      0 < unat (votesFor (commands voted_for 1)) + unat (votesAgainst (commands voted_for 1)) \<and>
      60 \<le> unat (votesFor (commands voted_for 1)) * 100
              div (unat (votesFor (commands voted_for 1)) + unat (votesAgainst (commands voted_for 1)))) \<and>
   unat (votesFor (commands voted_for 1)) = 40 \<and>
   totalActiveCapacity voted_for = 100 \<and>
   \<not> executed (commands voted_against 1)"
proof -
  have cast: "voteOnCommand (sent_by 10 1000) 1 True scenario = Success RVoid voted_for"
    "voteOnCommand (sent_by 10 1000) 1 False scenario = Success RVoid voted_against"
    by (simp_all add: scenario_defs call_defs)
  have before: "votesFor (commands scenario 1) = 0" "votesAgainst (commands scenario 1) = 0"
    "votingPower (energyNodes scenario 10) = 40" "totalActiveCapacity scenario = 100"
    by (simp_all add: scenario_defs call_defs)
  from vote_executes_at_once [of "sent_by 10 1000" 1 True scenario RVoid voted_for] cast(1) before
  have a: "executed (commands voted_for 1) =
     (unat (totalActiveCapacity voted_for) * 30 div 100
        \<le> unat (votesFor (commands voted_for 1)) + unat (votesAgainst (commands voted_for 1)) \<and>
      0 < unat (votesFor (commands voted_for 1)) + unat (votesAgainst (commands voted_for 1)) \<and>
      60 \<le> unat (votesFor (commands voted_for 1)) * 100
              div (unat (votesFor (commands voted_for 1)) + unat (votesAgainst (commands voted_for 1))))"
    "unat (votesFor (commands voted_for 1)) = 40"
    "totalActiveCapacity voted_for = 100"
    by (simp_all add: sent_by_def)
  from vote_executes_at_once [of "sent_by 10 1000" 1 False scenario RVoid voted_against] cast(2) before
  have b: "\<not> executed (commands voted_against 1)"
    by (simp add: sent_by_def)
  from a b show ?thesis by blast
qed

section \<open>Truncating percentages\<close>

lemma getCommandStatus_Success:
  assumes "getCommandStatus cid s = Success (RStatus c rg vf va tv ap ex exd) s'"
  shows "s' = s \<and> c = command (commands s cid) \<and> rg = region (commands s cid) \<and>
     vf = votesFor (commands s cid) \<and> va = votesAgainst (commands s cid) \<and>
     exd = executed (commands s cid) \<and>
     unat tv = unat vf + unat va \<and>
     unat ap = (if unat tv = 0 then 0 else unat vf * 100 div unat tv) \<and>
     ex = (unat (totalActiveCapacity s) * 30 div 100 \<le> unat tv \<and> 0 < unat tv \<and>
           60 \<le> unat ap \<and> \<not> exd)"
proof -
  let ?vf = "votesFor (commands s cid)" and ?va = "votesAgainst (commands s cid)"
  from assms obtain tv' ap' sc where tv: "checked_add ?vf ?va = Some tv'"
    and ap: "(if 0 < tv'
              then (case checked_mul ?vf 100 of None \<Rightarrow> None
                    | Some forScaled \<Rightarrow> checked_div forScaled tv')
              else Some 0) = Some ap'"
    and sc: "checked_mul (totalActiveCapacity s) MIN_PARTICIPATION_PERCENTAGE = Some sc"
    by (auto simp: getCommandStatus_def guard_def checked_def Let_def
             split: option.splits if_splits)
  from assms tv ap sc have res: "s' = s" "c = command (commands s cid)"
    "rg = region (commands s cid)" "vf = ?vf" "va = ?va" "exd = executed (commands s cid)"
    "tv = tv'" "ap = ap'"
    "ex = (sc div 100 \<le> tv' \<and> (0 < tv' \<and> MIN_APPROVAL_PERCENTAGE \<le> ap') \<and>
           \<not> executed (commands s cid))"
    by (auto simp: getCommandStatus_def guard_def checked_def Let_def
             split: option.splits if_splits)
  have utv: "unat tv' = unat ?vf + unat ?va" using tv by (rule unat_checked_add)
  have usc: "unat (sc div 100) = unat (totalActiveCapacity s) * 30 div 100"
    using unat_scaled [OF sc] by (simp add: unat_div MIN_PARTICIPATION_PERCENTAGE_def)
  have uap: "unat ap' = (if unat tv' = 0 then 0 else unat ?vf * 100 div unat tv')"
  proof (cases "0 < tv'")
    case True
    with ap obtain fs where fs: "checked_mul ?vf 100 = Some fs" and d: "checked_div fs tv' = Some ap'"
      by (auto split: option.splits)
    from True have nz: "unat tv' \<noteq> 0" by (simp add: word_less_nat_alt)
    from d have "ap' = fs div tv'" by (auto simp: checked_div_def split: if_splits)
    with unat_scaled [OF fs] nz show ?thesis by (simp add: unat_div)
  next
    case False
    then have "unat tv' = 0" by (simp add: word_less_nat_alt)
    moreover from False ap have "ap' = 0" by simp
    ultimately show ?thesis by simp
  qed
  have "ex = (unat (totalActiveCapacity s) * 30 div 100 \<le> unat tv' \<and> 0 < unat tv' \<and>
           60 \<le> unat ap' \<and> \<not> executed (commands s cid))"
    by (simp add: res(9) word_le_nat_alt word_less_nat_alt usc MIN_APPROVAL_PERCENTAGE_def)
  with res utv uap show ?thesis by simp
qed

text \<open>
  C5. \<^verbatim>\<open>getCommandStatus\<close> and \<^verbatim>\<open>_checkAndExecuteCommand\<close> compute quorum as
  \<open>total * 30 div 100 \<le> cast\<close> and approval as \<open>60 \<le> votesFor * 100 div cast\<close>, with
  the truncating division of natural numbers. With aggregate 100, the tally 59 to 41
  meets quorum and is not executable (approval 59), and the tally 60 to 40 is
  executable (approval 60) and is executed by the automatic check. With aggregate 1000,
  the tally 599 to 401 has approval 59, truncated from 59.9, and is not executable.
\<close>

theorem percentages_truncate:
  "(getCommandStatus cid s = Success (RStatus c rg vf va tv ap ex exd) s' \<longrightarrow>
      vf = votesFor (commands s cid) \<and> va = votesAgainst (commands s cid) \<and>
      exd = executed (commands s cid) \<and>
      unat tv = unat vf + unat va \<and>
      unat ap = (if unat tv = 0 then 0 else unat vf * 100 div unat tv) \<and>
      ex = (unat (totalActiveCapacity s) * 30 div 100 \<le> unat tv \<and> 0 < unat tv \<and>
            60 \<le> unat ap \<and> \<not> exd)) \<and>
   (checkAndExecuteCommand cid s = Success r s'' \<longrightarrow>
      s'' = (if unat (totalActiveCapacity s) * 30 div 100
                 \<le> unat (votesFor (commands s cid)) + unat (votesAgainst (commands s cid)) \<and>
               0 < unat (votesFor (commands s cid)) + unat (votesAgainst (commands s cid)) \<and>
               60 \<le> unat (votesFor (commands s cid)) * 100
                       div (unat (votesFor (commands s cid)) + unat (votesAgainst (commands s cid)))
            then marked_executed cid s else s)) \<and>
   getCommandStatus 1 (with_tally 100 59 41 s)
     = Success (RStatus (command (commands s 1)) (region (commands s 1)) 59 41 100 59 False False)
         (with_tally 100 59 41 s) \<and>
   quorum_met 1 (with_tally 100 59 41 s) \<and> \<not> approval_met 1 (with_tally 100 59 41 s) \<and>
   checkAndExecuteCommand 1 (with_tally 100 59 41 s) = Success RVoid (with_tally 100 59 41 s) \<and>
   getCommandStatus 1 (with_tally 100 60 40 s)
     = Success (RStatus (command (commands s 1)) (region (commands s 1)) 60 40 100 60 True False)
         (with_tally 100 60 40 s) \<and>
   checkAndExecuteCommand 1 (with_tally 100 60 40 s)
     = Success RVoid (marked_executed 1 (with_tally 100 60 40 s)) \<and>
   executed (commands (marked_executed 1 (with_tally 100 60 40 s)) 1) \<and>
   getCommandStatus 1 (with_tally 1000 599 401 s)
     = Success (RStatus (command (commands s 1)) (region (commands s 1)) 599 401 1000 59 False False)
         (with_tally 1000 599 401 s)"
proof -
  have status: "vf = votesFor (commands s cid) \<and> va = votesAgainst (commands s cid) \<and>
      exd = executed (commands s cid) \<and>
      unat tv = unat vf + unat va \<and>
      unat ap = (if unat tv = 0 then 0 else unat vf * 100 div unat tv) \<and>
      ex = (unat (totalActiveCapacity s) * 30 div 100 \<le> unat tv \<and> 0 < unat tv \<and>
            60 \<le> unat ap \<and> \<not> exd)"
    if "getCommandStatus cid s = Success (RStatus c rg vf va tv ap ex exd) s'"
    using getCommandStatus_Success [OF that] by blast
  have auto_exec: "s'' = (if unat (totalActiveCapacity s) * 30 div 100
                 \<le> unat (votesFor (commands s cid)) + unat (votesAgainst (commands s cid)) \<and>
               0 < unat (votesFor (commands s cid)) + unat (votesAgainst (commands s cid)) \<and>
               60 \<le> unat (votesFor (commands s cid)) * 100
                       div (unat (votesFor (commands s cid)) + unat (votesAgainst (commands s cid)))
            then marked_executed cid s else s)"
    if "checkAndExecuteCommand cid s = Success r s''"
    using checkAndExecuteCommand_Success [OF that]
    by (simp add: quorum_met_def approval_met_def split: if_splits)
  have examples:
    "getCommandStatus 1 (with_tally 100 59 41 s)
     = Success (RStatus (command (commands s 1)) (region (commands s 1)) 59 41 100 59 False False)
         (with_tally 100 59 41 s)"
    "quorum_met 1 (with_tally 100 59 41 s)" "\<not> approval_met 1 (with_tally 100 59 41 s)"
    "checkAndExecuteCommand 1 (with_tally 100 59 41 s) = Success RVoid (with_tally 100 59 41 s)"
    "getCommandStatus 1 (with_tally 100 60 40 s)
     = Success (RStatus (command (commands s 1)) (region (commands s 1)) 60 40 100 60 True False)
         (with_tally 100 60 40 s)"
    "checkAndExecuteCommand 1 (with_tally 100 60 40 s)
     = Success RVoid (marked_executed 1 (with_tally 100 60 40 s))"
    "executed (commands (marked_executed 1 (with_tally 100 60 40 s)) 1)"
    "getCommandStatus 1 (with_tally 1000 599 401 s)
     = Success (RStatus (command (commands s 1)) (region (commands s 1)) 599 401 1000 59 False False)
         (with_tally 1000 599 401 s)"
    by (simp_all add: with_tally_def call_defs quorum_met_def approval_met_def marked_executed_def)
  from status auto_exec examples show ?thesis by blast
qed

theorem percentages_truncate_witness:
  "getCommandStatus 1 voted_against
     = Success (RStatus ''REDUCE_LOAD_15%'' ''EU'' 0 40 40 0 False False) voted_against \<and>
   checkAndExecuteCommand 1 voted_against = Success RVoid voted_against \<and>
   unat (totalActiveCapacity voted_against) * 30 div 100 = 30 \<and>
   (unat (0 :: uint256) * 100 div unat (40 :: uint256) < 60)"
proof -
  have st: "getCommandStatus 1 voted_against
     = Success (RStatus ''REDUCE_LOAD_15%'' ''EU'' 0 40 40 0 False False) voted_against"
    by (simp add: scenario_defs call_defs)
  have chk: "checkAndExecuteCommand 1 voted_against = Success RVoid voted_against"
    by (simp add: scenario_defs call_defs)
  have tot: "unat (totalActiveCapacity voted_against) * 30 div 100 = 30"
    by (simp add: scenario_defs call_defs)
  from percentages_truncate [of 1 voted_against "''REDUCE_LOAD_15%''" "''EU''" 0 40 40 0 False False
         voted_against RVoid voted_against] st chk tot
  show ?thesis by simp
qed

end
